theory Spec2Isabelle
  imports Complex_Main "HOL-Library.Sublist"
begin

section \<open>Python values as the program sees them\<close>

text \<open>
  A Python \<open>str\<close> is a sequence of Unicode code points; \<open>in\<close>, \<open>strip\<close> and
  \<open>len\<close> all work on code points. The messages of the program are Chinese text, so
  a string is modelled as the list of its code points (the integers \<open>ord\<close> gives).
  \<open>ascii\<close> embeds a literal whose characters are all below 128.
\<close>

type_synonym pystr = "int list"

definition ascii :: "string \<Rightarrow> pystr" where
  "ascii s = map of_char s"

text \<open>
  A Python \<open>float\<close>: the finite doubles (with their exact rational value; every
  double is a rational, so the type has more finite values than the machine does), the
  negative zero, the two infinities and NaN. \<open>json.load\<close> produces all of them
  (it accepts the literals \<open>NaN\<close>, \<open>Infinity\<close> and \<open>-Infinity\<close>).
\<close>

datatype pyfloat = Finite rat | MinusZero | PosInf | NegInf | NaN

text \<open>What \<open>json.load\<close> returns: the elements of the loaded array are arbitrary
  JSON values; a JSON object is a \<open>dict\<close> in insertion order.\<close>

datatype json =
    JNull
  | JBool bool
  | JInt int
  | JFloat pyfloat
  | JStr pystr
  | JArr "json list"
  | JObj "(pystr \<times> json) list"

text \<open>
  The built-ins of the Python runtime whose results depend on IEEE rounding or on the
  Unicode database are parameters of the model, and every theorem below holds for all of
  them:
  \<^item> \<open>float_of_str s\<close> is \<open>float(s)\<close> for a \<open>str\<close> (\<open>None\<close>: it raises ValueError);
  \<^item> \<open>float_of_big n\<close> is \<open>float(n)\<close> for an \<open>int\<close> beyond \<open>2^53\<close> in magnitude, where
    the conversion rounds (\<open>None\<close>: it raises OverflowError);
  \<^item> \<open>repr_float\<close> is \<open>repr\<close> of a float (the shortest digits that read back);
  \<^item> \<open>repr_str\<close> is \<open>repr\<close> of a str (quotes and escapes).
\<close>

record runtime =
  float_of_str :: "pystr \<Rightarrow> pyfloat option"
  float_of_big :: "int \<Rightarrow> pyfloat option"
  repr_float :: "pyfloat \<Rightarrow> pystr"
  repr_str :: "pystr \<Rightarrow> pystr"

text \<open>The exceptions a record can cause: \<open>p.get\<close> on a value that is no \<open>dict\<close>
  (with the offending value), and \<open>str\<close> of a value whose arrays and objects are
  nested deeper than the interpreter's recursion limit allows.\<close>

datatype py_exn = AttributeError json | RecursionError

fun bindE :: "py_exn + 'a \<Rightarrow> ('a \<Rightarrow> py_exn + 'b) \<Rightarrow> py_exn + 'b" where
  "bindE (Inl e) f = Inl e"
| "bindE (Inr x) f = f x"

subsection \<open>\<open>str\<close>, \<open>repr\<close> and \<open>join\<close>\<close>

text \<open>The decimal digits of a non-negative integer, and \<open>str\<close> of an \<open>int\<close>.\<close>

function digits :: "int \<Rightarrow> pystr" where
  "digits n = (if n < 10 then [48 + n] else digits (n div 10) @ [48 + n mod 10])"
  by pat_completeness auto
termination
  by (relation "measure nat") auto

declare digits.simps [simp del]

definition str_int :: "int \<Rightarrow> pystr" where
  "str_int i = (if i < 0 then 45 # digits (- i) else digits i)"

fun join :: "pystr \<Rightarrow> pystr list \<Rightarrow> pystr" where
  "join sep [] = []"
| "join sep [x] = x"
| "join sep (x # y # ys) = x @ sep @ join sep (y # ys)"

text \<open>The text that \<open>repr(v)\<close> returns, when it returns. It returns unless the calls
  of \<open>repr\<close> it nests, one for each element of an array or object, go deeper than the
  interpreter allows: see \<open>repr_depth\<close> and \<open>py_str_lim\<close> below.\<close>

fun py_repr :: "runtime \<Rightarrow> json \<Rightarrow> pystr" where
  "py_repr rt JNull = ascii ''None''"
| "py_repr rt (JBool b) = (if b then ascii ''True'' else ascii ''False'')"
| "py_repr rt (JInt n) = str_int n"
| "py_repr rt (JFloat f) = repr_float rt f"
| "py_repr rt (JStr s) = repr_str rt s"
| "py_repr rt (JArr xs) =
     ascii ''['' @ join (ascii '', '') (map (py_repr rt) xs) @ ascii '']''"
| "py_repr rt (JObj kvs) =
     ascii ''{'' @
     join (ascii '', '')
       (map (\<lambda>kv. repr_str rt (fst kv) @ ascii '': '' @ py_repr rt (snd kv)) kvs) @
     ascii ''}''"

text \<open>The text that \<open>str(v)\<close> returns, when it returns, which is also what an f-string
  field \<open>{v}\<close> inserts: a \<open>str\<close> is itself, everything else is its \<open>repr\<close>.\<close>

fun py_str :: "runtime \<Rightarrow> json \<Rightarrow> pystr" where
  "py_str rt (JStr s) = s"
| "py_str rt v = py_repr rt v"

text \<open>
  How deep the calls of \<open>repr\<close> nest for a value, the call for the value itself
  included: \<open>repr\<close> of an array or object calls \<open>repr\<close> for each element, and every such
  call takes one level of the interpreter's recursion depth.
\<close>

fun repr_depth :: "json \<Rightarrow> nat" where
  "repr_depth (JArr xs) = Suc (foldr max (map repr_depth xs) 0)"
| "repr_depth (JObj kvs) = Suc (foldr max (map (\<lambda>kv. repr_depth (snd kv)) kvs) 0)"
| "repr_depth v = 1"

text \<open>
  \<open>str(v)\<close> in an interpreter that allows \<open>d\<close> more nested calls of \<open>repr\<close> at that
  point: a \<open>str\<close> is returned as it is; for any other value \<open>repr\<close> runs, and raises
  RecursionError when its calls nest deeper than \<open>d\<close>. The depth \<open>d\<close> depends on the
  recursion limit and on how deep the stack of the caller is.
\<close>

fun py_str_lim :: "runtime \<Rightarrow> nat \<Rightarrow> json \<Rightarrow> py_exn + pystr" where
  "py_str_lim rt d (JStr s) = Inr s"
| "py_str_lim rt d v = (if repr_depth v \<le> d then Inr (py_repr rt v) else Inl RecursionError)"

subsection \<open>\<open>in\<close> and \<open>strip\<close> on strings\<close>

text \<open>\<open>q in s\<close> for two strings.\<close>

fun py_in :: "pystr \<Rightarrow> pystr \<Rightarrow> bool" where
  "py_in q [] = (q = [])"
| "py_in q (c # cs) = (prefix q (c # cs) \<or> py_in q cs)"

text \<open>The code points for which \<open>str.isspace\<close> holds; \<open>strip()\<close> removes them at
  both ends.\<close>

definition is_space :: "int \<Rightarrow> bool" where
  "is_space c \<longleftrightarrow>
     (9 \<le> c \<and> c \<le> 13) \<or> (28 \<le> c \<and> c \<le> 32) \<or> c = 0x85 \<or> c = 0xA0 \<or> c = 0x1680 \<or>
     (0x2000 \<le> c \<and> c \<le> 0x200A) \<or> c = 0x2028 \<or> c = 0x2029 \<or> c = 0x202F \<or>
     c = 0x205F \<or> c = 0x3000"

definition strip :: "pystr \<Rightarrow> pystr" where
  "strip s = rev (dropWhile is_space (rev (dropWhile is_space s)))"

subsection \<open>\<open>dict.get\<close>, \<open>float\<close> and comparison\<close>

text \<open>\<open>d.get(key, default)\<close> on a \<open>dict\<close> with the items \<open>kvs\<close>.\<close>

definition dict_get :: "(pystr \<times> json) list \<Rightarrow> pystr \<Rightarrow> json \<Rightarrow> json" where
  "dict_get kvs key dflt = (case map_of kvs key of None \<Rightarrow> dflt | Some v \<Rightarrow> v)"

text \<open>\<open>p.get(key, default)\<close> on any value: only a \<open>dict\<close> has the method.\<close>

fun py_get :: "json \<Rightarrow> pystr \<Rightarrow> json \<Rightarrow> py_exn + json" where
  "py_get (JObj kvs) key dflt = Inr (dict_get kvs key dflt)"
| "py_get p key dflt = Inl (AttributeError p)"

text \<open>\<open>float(v)\<close>; \<open>None\<close> stands for the TypeError, ValueError or OverflowError it
  raises.\<close>

fun py_float :: "runtime \<Rightarrow> json \<Rightarrow> pyfloat option" where
  "py_float rt JNull = None"
| "py_float rt (JBool b) = Some (Finite (if b then 1 else 0))"
| "py_float rt (JInt n) =
     (if \<bar>n\<bar> \<le> 2 ^ 53 then Some (Finite (of_int n)) else float_of_big rt n)"
| "py_float rt (JFloat f) = Some f"
| "py_float rt (JStr s) = float_of_str rt s"
| "py_float rt (JArr xs) = None"
| "py_float rt (JObj kvs) = None"

text \<open>The local function \<open>num\<close> of \<open>filter_products\<close>: the bare \<open>except\<close>
  turns every failure into \<open>0.0\<close>.\<close>

definition num :: "runtime \<Rightarrow> json \<Rightarrow> pyfloat" where
  "num rt v = (case py_float rt v of Some x \<Rightarrow> x | None \<Rightarrow> Finite 0)"

text \<open>\<open>a <= b\<close> on numbers. Python compares an \<open>int\<close> with a \<open>float\<close> by exact
  value, so an integer bound is the \<open>Finite\<close> value of that integer. NaN is in no
  order relation; the two zeros are equal.\<close>

fun fin_val :: "pyfloat \<Rightarrow> rat" where
  "fin_val (Finite r) = r"
| "fin_val x = 0"

fun float_le :: "pyfloat \<Rightarrow> pyfloat \<Rightarrow> bool" where
  "float_le NaN b = False"
| "float_le a NaN = False"
| "float_le NegInf b = True"
| "float_le a PosInf = True"
| "float_le PosInf b = False"
| "float_le a NegInf = False"
| "float_le a b = (fin_val a \<le> fin_val b)"

section \<open>The literals of \<open>final.py\<close>\<close>

text \<open>Each constant is one literal piece of a message of the source, as its code
  points, in the order of the source text.\<close>

definition msg_not_loaded :: pystr where \<comment> \<open>the text returned when \<open>products\<close> is empty (line 42)\<close>
  "msg_not_loaded =
     [0x26A0, 0xFE0F, 0x20, 0x5C1A, 0x672A, 0x8F09, 0x5165, 0x7522, 0x54C1, 0x8CC7, 0x6599,
     0x3002]"

definition no_match_pre :: pystr where \<comment> \<open>line 55, before the keyword\<close>
  "no_match_pre =
     [0x274C, 0x20, 0x627E, 0x4E0D, 0x5230, 0x8207, 0x300C]"

definition no_match_suf :: pystr where \<comment> \<open>line 55, after the keyword\<close>
  "no_match_suf =
     [0x300D, 0x76F8, 0x95DC, 0x7684, 0x7CFB, 0x5217, 0x20, 0x2F, 0x20, 0x578B, 0x865F,
     0x3002]"

definition kw_no_attr_pre :: pystr where \<comment> \<open>line 82, before the keyword\<close>
  "kw_no_attr_pre =
     [0x274C, 0x20, 0x7CFB, 0x5217, 0x95DC, 0x9375, 0x5B57, 0x300C]"

definition kw_no_attr_suf :: pystr where \<comment> \<open>line 82, after the keyword\<close>
  "kw_no_attr_suf =
     [0x300D, 0x4E0B, 0x6C92, 0x6709, 0x7B26, 0x5408, 0x5C6C, 0x6027, 0x689D, 0x4EF6, 0x7684,
     0x7522, 0x54C1, 0x3002]"

definition msg_no_attr :: pystr where \<comment> \<open>line 84\<close>
  "msg_no_attr =
     [0x274C, 0x20, 0x6C92, 0x6709, 0x4EFB, 0x4F55, 0x7522, 0x54C1, 0x7B26, 0x5408, 0x5C6C,
     0x6027, 0x689D, 0x4EF6, 0x3002]"

definition hdr_a :: pystr where \<comment> \<open>line 87, up to the count\<close>
  "hdr_a =
     [0x23, 0x23, 0x23, 0x20, 0x7BE9, 0x9078, 0x7D50, 0x679C, 0xFF1A, 0x5171, 0x20]"

definition hdr_b :: pystr where \<comment> \<open>line 87, between the two numbers\<close>
  "hdr_b =
     [0x20, 0x7B46, 0xFF08, 0x986F, 0x793A, 0x524D, 0x20]"

definition hdr_c :: pystr where \<comment> \<open>line 87, after the second number, with the newline\<close>
  "hdr_c =
     [0x20, 0x7B46, 0xFF09, 0xA]"

definition seg_series :: pystr where \<comment> \<open>line 90\<close>
  "seg_series =
     [0x2D, 0x20, 0x2A, 0x2A, 0x7CFB, 0x5217, 0xFF1A]"

definition dflt_series :: pystr where \<comment> \<open>the default of \<open>series\<close> in the report\<close>
  "dflt_series =
     [0x672A, 0x6A19, 0x793A, 0x7CFB, 0x5217]"

definition seg_model :: pystr where \<comment> \<open>lines 90 and 91\<close>
  "seg_model =
     [0x2A, 0x2A, 0xFF5C, 0x578B, 0x865F, 0xFF1A, 0x60]"

definition dflt_model :: pystr where \<comment> \<open>the default of \<open>model\<close> in the report\<close>
  "dflt_model =
     [0x672A, 0x547D, 0x540D]"

definition seg_watt :: pystr where \<comment> \<open>lines 91 and 92\<close>
  "seg_watt =
     [0x60, 0x20, 0x7C, 0x20, 0x529F, 0x7387, 0xFF1A]"

definition seg_cct :: pystr where \<comment> \<open>lines 92 and 93\<close>
  "seg_cct =
     [0x57, 0x20, 0x7C, 0x20, 0x8272, 0x6EAB, 0xFF1A]"

definition seg_beam :: pystr where \<comment> \<open>lines 93 and 94\<close>
  "seg_beam =
     [0x4B, 0x20, 0x7C, 0x20, 0x5149, 0x675F, 0x89D2, 0xFF1A]"

definition seg_lumen :: pystr where \<comment> \<open>lines 94 and 95\<close>
  "seg_lumen =
     [0xB0, 0x20, 0x7C, 0x20, 0x5149, 0x901A, 0x91CF, 0xFF1A]"

definition seg_price :: pystr where \<comment> \<open>lines 95 and 96\<close>
  "seg_price =
     [0x6C, 0x6D, 0x20, 0x7C, 0x20, 0x50F9, 0x683C, 0xFF1A]"

definition seg_end :: pystr where \<comment> \<open>line 96\<close>
  "seg_end =
     [0x20, 0x5143]"

definition missing_pre :: pystr where \<comment> \<open>line 19, before the path\<close>
  "missing_pre =
     [0x274C, 0x20, 0x627E, 0x4E0D, 0x5230, 0x20]"

definition missing_suf :: pystr where \<comment> \<open>line 19, after the path\<close>
  "missing_suf =
     [0xFF0C, 0x8ACB, 0x5148, 0x78BA, 0x8A8D, 0x6A94, 0x6848, 0x5B58, 0x5728, 0x3002]"

definition msg_format :: pystr where \<comment> \<open>line 24\<close>
  "msg_format =
     [0x274C, 0x20, 0x6A94, 0x6848, 0x683C, 0x5F0F, 0x932F, 0x8AA4, 0xFF1A, 0x6700, 0x5916,
     0x5C64, 0x61C9, 0x70BA, 0x9663, 0x5217, 0x28, 0x6C, 0x69, 0x73, 0x74, 0x29, 0x3002]"

definition loaded_pre :: pystr where \<comment> \<open>line 25, before the count\<close>
  "loaded_pre =
     [0x2705, 0x20, 0x5DF2, 0x8F09, 0x5165, 0x20]"

definition loaded_suf :: pystr where \<comment> \<open>line 25, after the count\<close>
  "loaded_suf =
     [0x20, 0x7B46, 0x8CC7, 0x6599, 0x3002]"

definition failed_pre :: pystr where \<comment> \<open>line 27, before the exception's text\<close>
  "failed_pre =
     [0x274C, 0x20, 0x8F09, 0x5165, 0x5931, 0x6557, 0xFF1A]"

section \<open>\<open>load_products\<close>\<close>

text \<open>
  The file system and \<open>json.load\<close> are outside the program. What \<open>load_products\<close>
  sees of them is whether the file exists and, if it does, what the \<open>try\<close> block
  observes: an exception (with its text \<open>str(e)\<close>) from \<open>open\<close> or
  \<open>json.load\<close>, or the parsed top-level value.
\<close>

datatype file_read = Raises pystr | Parsed json

text \<open>The argument \<open>data_file\<close> is the module constant \<open>DATA_FILE\<close>; \<open>None\<close> is
  a path that does not exist.\<close>

fun load_products :: "pystr \<Rightarrow> file_read option \<Rightarrow> json list \<times> pystr" where
  "load_products data_file None = ([], missing_pre @ data_file @ missing_suf)"
| "load_products data_file (Some (Parsed (JArr data))) =
     (data, loaded_pre @ str_int (int (length data)) @ loaded_suf)"
| "load_products data_file (Some (Parsed data)) = ([], msg_format)"
| "load_products data_file (Some (Raises e)) = ([], failed_pre @ e)"

section \<open>\<open>filter_products\<close>\<close>

text \<open>The ten numeric bounds of the call, under the names of the parameters.\<close>

record bounds =
  watt_lo :: pyfloat
  watt_hi :: pyfloat
  cct_lo :: pyfloat
  cct_hi :: pyfloat
  beam_lo :: pyfloat
  beam_hi :: pyfloat
  lumen_lo :: pyfloat
  lumen_hi :: pyfloat
  price_lo :: pyfloat
  price_hi :: pyfloat

text \<open>The condition of the list comprehension (line 52); \<open>or\<close> evaluates its second
  operand only when the first is false.\<close>

definition kw_match :: "runtime \<Rightarrow> pystr \<Rightarrow> json \<Rightarrow> py_exn + bool" where
  "kw_match rt q p =
     bindE (py_get p (ascii ''series'') (JStr [])) (\<lambda>s.
       if py_in q (py_str rt s) then Inr True
       else bindE (py_get p (ascii ''model'') (JStr [])) (\<lambda>m.
         Inr (py_in q (py_str rt m))))"

text \<open>The list comprehension of lines 50 to 53, over \<open>products\<close> from left to right.\<close>

fun keyword_stage :: "runtime \<Rightarrow> pystr \<Rightarrow> json list \<Rightarrow> py_exn + json list" where
  "keyword_stage rt q [] = Inr []"
| "keyword_stage rt q (p # ps) =
     bindE (kw_match rt q p) (\<lambda>keep.
     bindE (keyword_stage rt q ps) (\<lambda>rest.
       Inr (if keep then p # rest else rest)))"

text \<open>The expression \<open>num(p.get(key, 0))\<close> of lines 66 to 70.\<close>

definition attr_value :: "runtime \<Rightarrow> json \<Rightarrow> pystr \<Rightarrow> py_exn + pyfloat" where
  "attr_value rt p key = bindE (py_get p key (JInt 0)) (\<lambda>v. Inr (num rt v))"

text \<open>The body of the loop of lines 65 to 78 for one record \<open>p\<close>, up to the decision:
  \<open>False\<close> is one of the five \<open>continue\<close> statements, \<open>True\<close> is reaching
  \<open>result.append(p)\<close>.\<close>

definition attr_keep :: "runtime \<Rightarrow> bounds \<Rightarrow> json \<Rightarrow> py_exn + bool" where
  "attr_keep rt b p =
     bindE (attr_value rt p (ascii ''watt'')) (\<lambda>w.
     bindE (attr_value rt p (ascii ''cct'')) (\<lambda>c.
     bindE (attr_value rt p (ascii ''beam'')) (\<lambda>bm.
     bindE (attr_value rt p (ascii ''lumen'')) (\<lambda>l.
     bindE (attr_value rt p (ascii ''price'')) (\<lambda>pr.
       if \<not> (float_le (watt_lo b) w \<and> float_le w (watt_hi b)) then Inr False
       else if \<not> (float_le (cct_lo b) c \<and> float_le c (cct_hi b)) then Inr False
       else if \<not> (float_le (beam_lo b) bm \<and> float_le bm (beam_hi b)) then Inr False
       else if \<not> (float_le (lumen_lo b) l \<and> float_le l (lumen_hi b)) then Inr False
       else if \<not> (float_le (price_lo b) pr \<and> float_le pr (price_hi b)) then Inr False
       else Inr True)))))"

text \<open>The loop of lines 64 to 78. \<open>result\<close> is the list built so far; a
  \<open>continue\<close> goes on with the next record and leaves \<open>result\<close> as it is.\<close>

fun attr_loop :: "runtime \<Rightarrow> bounds \<Rightarrow> json list \<Rightarrow> json list \<Rightarrow> py_exn + json list" where
  "attr_loop rt b result [] = Inr result"
| "attr_loop rt b result (p # ps) =
     bindE (attr_keep rt b p) (\<lambda>keep.
       attr_loop rt b (if keep then result @ [p] else result) ps)"

text \<open>\<open>xs[:k]\<close> for an integer \<open>k\<close>: a negative \<open>k\<close> counts from the end.\<close>

definition py_slice_to :: "int \<Rightarrow> 'a list \<Rightarrow> 'a list" where
  "py_slice_to k xs =
     (if k < 0 then take (nat (int (length xs) + k)) xs else take (nat k) xs)"

text \<open>One replacement field \<open>{it.get(key, dflt)}\<close> of the f-string of lines 90 to
  96: the text of the value, or of the default when the key is absent.\<close>

definition shown_field :: "runtime \<Rightarrow> json \<Rightarrow> pystr \<Rightarrow> pystr \<Rightarrow> py_exn + pystr" where
  "shown_field rt it key dflt = bindE (py_get it key (JStr dflt)) (\<lambda>v. Inr (py_str rt v))"

text \<open>The f-string of lines 90 to 96 for one record, its fields from left to right.\<close>

definition render_line :: "runtime \<Rightarrow> json \<Rightarrow> py_exn + pystr" where
  "render_line rt it =
     bindE (shown_field rt it (ascii ''series'') dflt_series) (\<lambda>s.
     bindE (shown_field rt it (ascii ''model'') dflt_model) (\<lambda>m.
     bindE (shown_field rt it (ascii ''watt'') (ascii ''?'')) (\<lambda>w.
     bindE (shown_field rt it (ascii ''cct'') (ascii ''?'')) (\<lambda>c.
     bindE (shown_field rt it (ascii ''beam'') (ascii ''?'')) (\<lambda>bm.
     bindE (shown_field rt it (ascii ''lumen'') (ascii ''?'')) (\<lambda>l.
     bindE (shown_field rt it (ascii ''price'') (ascii ''?'')) (\<lambda>pr.
       Inr (seg_series @ s @ seg_model @ m @ seg_watt @ w @ seg_cct @ c @ seg_beam @ bm @
            seg_lumen @ l @ seg_price @ pr @ seg_end))))))))"

text \<open>The loop of lines 88 to 97: one \<open>lines.append\<close> for each displayed record.\<close>

fun render_loop :: "runtime \<Rightarrow> pystr list \<Rightarrow> json list \<Rightarrow> py_exn + pystr list" where
  "render_loop rt lines [] = Inr lines"
| "render_loop rt lines (it # its) =
     bindE (render_line rt it) (\<lambda>row. render_loop rt (lines @ [row]) its)"

text \<open>The header of line 87, for \<open>len(result) = n\<close> and \<open>int(topk) = k\<close>.\<close>

definition header :: "int \<Rightarrow> int \<Rightarrow> pystr" where
  "header n k = hdr_a @ str_int n @ hdr_b @ str_int k @ hdr_c"

text \<open>
  \<open>filter_products\<close>, with the value of the module variable \<open>products\<close> as an argument.
  The keyword is a \<open>str\<close> (the text box of the form); the bounds are numbers; \<open>topk\<close> is
  the value of \<open>int(topk)\<close> (the slider has step 1). \<open>Inl\<close> is an exception that leaves
  the function. Here \<open>str\<close> always returns, as it does in an interpreter with recursion
  depth to spare; the next section is the function with the recursion limit. The lists
  are values here; the section after it has them as objects.
\<close>

definition filter_products ::
  "runtime \<Rightarrow> json list \<Rightarrow> pystr \<Rightarrow> bounds \<Rightarrow> int \<Rightarrow> py_exn + pystr" where
  "filter_products rt products series_keyword b topk =
     (if products = [] then Inr msg_not_loaded
      else
        let kw = (series_keyword \<noteq> [] \<and> strip series_keyword \<noteq> []) in
        bindE (if kw then keyword_stage rt (strip series_keyword) products else Inr products)
          (\<lambda>base.
        if kw \<and> base = [] then Inr (no_match_pre @ series_keyword @ no_match_suf)
        else
          bindE (attr_loop rt b [] base) (\<lambda>result.
          if result = [] then
            (if kw then Inr (kw_no_attr_pre @ series_keyword @ kw_no_attr_suf)
             else Inr msg_no_attr)
          else
            bindE (render_loop rt [header (int (length result)) topk] (py_slice_to topk result))
              (\<lambda>lines. Inr (join [10] lines)))))"

section \<open>\<open>filter_products\<close> with the recursion limit\<close>

text \<open>
  The same lines of the source, with \<open>str\<close> as it is in an interpreter whose recursion
  depth is limited: \<open>str_depth\<close> is the number of nested calls of \<open>repr\<close> still allowed at
  the two calls of \<open>str\<close> of line 52, \<open>fmt_depth\<close> the number allowed at the replacement
  fields of lines 90 to 96. (The calls that \<open>filter_products\<close> makes itself, to \<open>num\<close> and
  to the methods of its values, are taken to fit.) A RecursionError of \<open>str\<close> is caught
  nowhere and leaves the function. Nothing else differs from the previous section:
  \<open>float\<close> refuses an array or an object without looking into it.
\<close>

record depths =
  str_depth :: nat
  fmt_depth :: nat

text \<open>The condition of line 52.\<close>

definition kw_match_lim :: "runtime \<Rightarrow> nat \<Rightarrow> pystr \<Rightarrow> json \<Rightarrow> py_exn + bool" where
  "kw_match_lim rt d q p =
     bindE (py_get p (ascii ''series'') (JStr [])) (\<lambda>s.
     bindE (py_str_lim rt d s) (\<lambda>s_text.
       if py_in q s_text then Inr True
       else bindE (py_get p (ascii ''model'') (JStr [])) (\<lambda>m.
            bindE (py_str_lim rt d m) (\<lambda>m_text.
              Inr (py_in q m_text)))))"

text \<open>The list comprehension of lines 50 to 53.\<close>

fun keyword_stage_lim ::
  "runtime \<Rightarrow> nat \<Rightarrow> pystr \<Rightarrow> json list \<Rightarrow> py_exn + json list" where
  "keyword_stage_lim rt d q [] = Inr []"
| "keyword_stage_lim rt d q (p # ps) =
     bindE (kw_match_lim rt d q p) (\<lambda>keep.
     bindE (keyword_stage_lim rt d q ps) (\<lambda>rest.
       Inr (if keep then p # rest else rest)))"

text \<open>One replacement field \<open>{it.get(key, dflt)}\<close>.\<close>

definition shown_field_lim ::
  "runtime \<Rightarrow> nat \<Rightarrow> json \<Rightarrow> pystr \<Rightarrow> pystr \<Rightarrow> py_exn + pystr" where
  "shown_field_lim rt d it key dflt = bindE (py_get it key (JStr dflt)) (py_str_lim rt d)"

text \<open>The f-string of lines 90 to 96.\<close>

definition render_line_lim :: "runtime \<Rightarrow> nat \<Rightarrow> json \<Rightarrow> py_exn + pystr" where
  "render_line_lim rt d it =
     bindE (shown_field_lim rt d it (ascii ''series'') dflt_series) (\<lambda>s.
     bindE (shown_field_lim rt d it (ascii ''model'') dflt_model) (\<lambda>m.
     bindE (shown_field_lim rt d it (ascii ''watt'') (ascii ''?'')) (\<lambda>w.
     bindE (shown_field_lim rt d it (ascii ''cct'') (ascii ''?'')) (\<lambda>c.
     bindE (shown_field_lim rt d it (ascii ''beam'') (ascii ''?'')) (\<lambda>bm.
     bindE (shown_field_lim rt d it (ascii ''lumen'') (ascii ''?'')) (\<lambda>l.
     bindE (shown_field_lim rt d it (ascii ''price'') (ascii ''?'')) (\<lambda>pr.
       Inr (seg_series @ s @ seg_model @ m @ seg_watt @ w @ seg_cct @ c @ seg_beam @ bm @
            seg_lumen @ l @ seg_price @ pr @ seg_end))))))))"

text \<open>The loop of lines 88 to 97.\<close>

fun render_loop_lim ::
  "runtime \<Rightarrow> nat \<Rightarrow> pystr list \<Rightarrow> json list \<Rightarrow> py_exn + pystr list" where
  "render_loop_lim rt d lines [] = Inr lines"
| "render_loop_lim rt d lines (it # its) =
     bindE (render_line_lim rt d it) (\<lambda>row. render_loop_lim rt d (lines @ [row]) its)"

text \<open>\<open>filter_products\<close>, lines 41 to 98.\<close>

definition filter_products_lim ::
  "runtime \<Rightarrow> depths \<Rightarrow> json list \<Rightarrow> pystr \<Rightarrow> bounds \<Rightarrow> int \<Rightarrow> py_exn + pystr" where
  "filter_products_lim rt ds products series_keyword b topk =
     (if products = [] then Inr msg_not_loaded
      else
        let kw = (series_keyword \<noteq> [] \<and> strip series_keyword \<noteq> []) in
        bindE (if kw then keyword_stage_lim rt (str_depth ds) (strip series_keyword) products
               else Inr products)
          (\<lambda>base.
        if kw \<and> base = [] then Inr (no_match_pre @ series_keyword @ no_match_suf)
        else
          bindE (attr_loop rt b [] base) (\<lambda>result.
          if result = [] then
            (if kw then Inr (kw_no_attr_pre @ series_keyword @ kw_no_attr_suf)
             else Inr msg_no_attr)
          else
            bindE (render_loop_lim rt (fmt_depth ds) [header (int (length result)) topk]
                     (py_slice_to topk result))
              (\<lambda>lines. Inr (join [10] lines)))))"

section \<open>\<open>filter_products\<close> on a store\<close>

text \<open>
  In Python a list is an object that is changed in place, and a variable holds a
  reference to it: \<open>base = products\<close> makes \<open>base\<close> the very list that \<open>products\<close> is,
  while the list comprehension, \<open>result = []\<close>, \<open>lines = [...]\<close> and the slice
  \<open>result[:int(topk)]\<close> each make a new list, and \<open>append\<close> changes the list it is
  called on. This section is \<open>filter_products\<close> again with these objects in a store, so
  that what a call changes can be stated.

  The store has the objects that are elements of record lists (\<open>objs\<close>; the function
  only calls \<open>get\<close> on them), the lists of references to such objects (\<open>rlists\<close>), the
  lists of strings (\<open>slists\<close>) and the first address not yet in use (\<open>lim\<close>).
\<close>

type_synonym addr = nat

record heap =
  objs :: "addr \<Rightarrow> json"
  rlists :: "addr \<Rightarrow> addr list"
  slists :: "addr \<Rightarrow> pystr list"
  lim :: addr

text \<open>A new list object with the elements \<open>xs\<close>, at the first unused address.\<close>

definition new_rlist :: "addr list \<Rightarrow> heap \<Rightarrow> addr \<times> heap" where
  "new_rlist xs h = (lim h, h\<lparr>rlists := (rlists h)(lim h := xs), lim := Suc (lim h)\<rparr>)"

definition new_slist :: "pystr list \<Rightarrow> heap \<Rightarrow> addr \<times> heap" where
  "new_slist xs h = (lim h, h\<lparr>slists := (slists h)(lim h := xs), lim := Suc (lim h)\<rparr>)"

text \<open>\<open>l.append(p)\<close> on the list object at address \<open>l\<close>.\<close>

definition append_ref :: "addr \<Rightarrow> addr \<Rightarrow> heap \<Rightarrow> heap" where
  "append_ref l p h = h\<lparr>rlists := (rlists h)(l := rlists h l @ [p])\<rparr>"

definition append_str :: "addr \<Rightarrow> pystr \<Rightarrow> heap \<Rightarrow> heap" where
  "append_str l s h = h\<lparr>slists := (slists h)(l := slists h l @ [s])\<rparr>"

text \<open>
  \<open>for p in src: if keep(p): dst.append(p)\<close>, which is the shape of the list
  comprehension of lines 50 to 53 and of the loop of lines 65 to 78. As the list iterator
  of Python does, each round reads the list \<open>src\<close> as it is at that moment, at the index
  \<open>i\<close>. \<open>None\<close> is a loop that does not return. An exception leaves the store as it is
  at that point.
\<close>

partial_function (option) select_loop ::
  "(json \<Rightarrow> py_exn + bool) \<Rightarrow> addr \<Rightarrow> addr \<Rightarrow> nat \<Rightarrow> heap \<Rightarrow> ((py_exn + unit) \<times> heap) option" where
  "select_loop keep src dst i h =
     (if i < length (rlists h src) then
        (case keep (objs h (rlists h src ! i)) of
           Inl e \<Rightarrow> Some (Inl e, h)
         | Inr k \<Rightarrow>
             select_loop keep src dst (Suc i)
               (if k then append_ref dst (rlists h src ! i) h else h))
      else Some (Inr (), h))"

text \<open>The loop of lines 88 to 97 over the list \<open>src\<close>, appending to the list of
  strings \<open>dst\<close>.\<close>

partial_function (option) render_loop_h ::
  "runtime \<Rightarrow> addr \<Rightarrow> addr \<Rightarrow> nat \<Rightarrow> heap \<Rightarrow> ((py_exn + unit) \<times> heap) option" where
  "render_loop_h rt src dst i h =
     (if i < length (rlists h src) then
        (case render_line rt (objs h (rlists h src ! i)) of
           Inl e \<Rightarrow> Some (Inl e, h)
         | Inr row \<Rightarrow> render_loop_h rt src dst (Suc i) (append_str dst row h))
      else Some (Inr (), h))"

declare select_loop.simps [code]
declare render_loop_h.simps [code]

text \<open>Lines 64 to 98, with \<open>base\<close> the address that the variable \<open>base\<close> holds and
  \<open>kw\<close> the truth of the condition of line 81.\<close>

definition attr_and_render ::
  "runtime \<Rightarrow> bool \<Rightarrow> pystr \<Rightarrow> addr \<Rightarrow> bounds \<Rightarrow> int \<Rightarrow> heap \<Rightarrow> ((py_exn + pystr) \<times> heap) option" where
  "attr_and_render rt kw series_keyword base b topk h =
     (let (result, h1) = new_rlist [] h in
      case select_loop (attr_keep rt b) base result 0 h1 of
        None \<Rightarrow> None
      | Some (Inl e, h2) \<Rightarrow> Some (Inl e, h2)
      | Some (Inr u, h2) \<Rightarrow>
          if rlists h2 result = [] then
            Some (Inr (if kw then kw_no_attr_pre @ series_keyword @ kw_no_attr_suf
                       else msg_no_attr), h2)
          else
            let (lines, h3) = new_slist [header (int (length (rlists h2 result))) topk] h2;
                (slice, h4) = new_rlist (py_slice_to topk (rlists h3 result)) h3
            in case render_loop_h rt slice lines 0 h4 of
                 None \<Rightarrow> None
               | Some (Inl e, h5) \<Rightarrow> Some (Inl e, h5)
               | Some (Inr u, h5) \<Rightarrow> Some (Inr (join [10] (slists h5 lines)), h5))"

text \<open>\<open>filter_products\<close> on the store; \<open>products\<close> is the address that the module
  variable \<open>products\<close> holds. Without a keyword \<open>base\<close> is that same address.\<close>

definition filter_products_h ::
  "runtime \<Rightarrow> addr \<Rightarrow> pystr \<Rightarrow> bounds \<Rightarrow> int \<Rightarrow> heap \<Rightarrow> ((py_exn + pystr) \<times> heap) option" where
  "filter_products_h rt products series_keyword b topk h =
     (if rlists h products = [] then Some (Inr msg_not_loaded, h)
      else if series_keyword \<noteq> [] \<and> strip series_keyword \<noteq> [] then
        (let (base, h1) = new_rlist [] h in
         case select_loop (kw_match rt (strip series_keyword)) products base 0 h1 of
           None \<Rightarrow> None
         | Some (Inl e, h2) \<Rightarrow> Some (Inl e, h2)
         | Some (Inr u, h2) \<Rightarrow>
             if rlists h2 base = [] then
               Some (Inr (no_match_pre @ series_keyword @ no_match_suf), h2)
             else attr_and_render rt True series_keyword base b topk h2)
      else attr_and_render rt False series_keyword products b topk h)"

subsection \<open>The loops of the store as functions of the lists they read\<close>

text \<open>Two functions for the proofs: what \<open>select_loop\<close> and \<open>render_loop_h\<close> compute
  from the elements \<open>ps\<close> still to visit and the contents \<open>acc\<close> of the list they append
  to, given the objects \<open>ob\<close>. The second component is the list as an exception leaves
  it.\<close>

fun sel ::
  "(json \<Rightarrow> py_exn + bool) \<Rightarrow> (addr \<Rightarrow> json) \<Rightarrow> addr list \<Rightarrow> addr list \<Rightarrow> (py_exn + unit) \<times> addr list" where
  "sel keep ob acc [] = (Inr (), acc)"
| "sel keep ob acc (p # ps) =
     (case keep (ob p) of
        Inl e \<Rightarrow> (Inl e, acc)
      | Inr k \<Rightarrow> sel keep ob (if k then acc @ [p] else acc) ps)"

fun ren ::
  "runtime \<Rightarrow> (addr \<Rightarrow> json) \<Rightarrow> pystr list \<Rightarrow> addr list \<Rightarrow> (py_exn + unit) \<times> pystr list" where
  "ren rt ob acc [] = (Inr (), acc)"
| "ren rt ob acc (p # ps) =
     (case render_line rt (ob p) of
        Inl e \<Rightarrow> (Inl e, acc)
      | Inr row \<Rightarrow> ren rt ob (acc @ [row]) ps)"

section \<open>The notions of the specification\<close>

text \<open>
  The specification speaks of records that are objects, of the text of a field, of a
  value coerced for comparison and of inclusive bounds. The definitions of this section
  follow its words; the theorems compare them with the functions of the source above.
  A record that is an object is given by its items \<open>r\<close>, the value being \<open>JObj r\<close>.
\<close>

fun is_obj :: "json \<Rightarrow> bool" where
  "is_obj (JObj kvs) = True"
| "is_obj v = False"

text \<open>\<open>isinstance(data, list)\<close>.\<close>

fun is_arr :: "json \<Rightarrow> bool" where
  "is_arr (JArr xs) = True"
| "is_arr v = False"

text \<open>The keyword is non-empty after trimming.\<close>

definition kw_active :: "pystr \<Rightarrow> bool" where
  "kw_active kw \<longleftrightarrow> kw \<noteq> [] \<and> strip kw \<noteq> []"

text \<open>The \<open>series\<close> field or the \<open>model\<close> field, coerced to text, contains \<open>q\<close> as a
  contiguous substring: \<open>sublist q s\<close> says that \<open>s = u @ q @ v\<close> for some \<open>u\<close>, \<open>v\<close>.
  An absent field has the empty text.\<close>

definition spec_keyword_match :: "runtime \<Rightarrow> pystr \<Rightarrow> (pystr \<times> json) list \<Rightarrow> bool" where
  "spec_keyword_match rt q r \<longleftrightarrow>
     sublist q (py_str rt (dict_get r (ascii ''series'') (JStr []))) \<or>
     sublist q (py_str rt (dict_get r (ascii ''model'') (JStr [])))"

text \<open>The value of an attribute as it is compared: the field coerced to a float, an
  absent field counting as the integer 0.\<close>

definition coerced :: "runtime \<Rightarrow> (pystr \<times> json) list \<Rightarrow> pystr \<Rightarrow> pyfloat" where
  "coerced rt r key = num rt (dict_get r key (JInt 0))"

text \<open>\<open>x\<close> lies in the inclusive range from \<open>lo\<close> to \<open>hi\<close>.\<close>

definition in_range :: "pyfloat \<Rightarrow> pyfloat \<Rightarrow> pyfloat \<Rightarrow> bool" where
  "in_range lo hi x \<longleftrightarrow> float_le lo x \<and> float_le x hi"

text \<open>All five coerced values lie within their bounds.\<close>

definition spec_in_bounds :: "runtime \<Rightarrow> bounds \<Rightarrow> (pystr \<times> json) list \<Rightarrow> bool" where
  "spec_in_bounds rt b r \<longleftrightarrow>
     in_range (watt_lo b) (watt_hi b) (coerced rt r (ascii ''watt'')) \<and>
     in_range (cct_lo b) (cct_hi b) (coerced rt r (ascii ''cct'')) \<and>
     in_range (beam_lo b) (beam_hi b) (coerced rt r (ascii ''beam'')) \<and>
     in_range (lumen_lo b) (lumen_hi b) (coerced rt r (ascii ''lumen'')) \<and>
     in_range (price_lo b) (price_hi b) (coerced rt r (ascii ''price''))"

text \<open>The text a field has in the report: that of its value, or the default label when
  the key is absent.\<close>

definition shown :: "runtime \<Rightarrow> (pystr \<times> json) list \<Rightarrow> pystr \<Rightarrow> pystr \<Rightarrow> pystr" where
  "shown rt r key dflt = py_str rt (dict_get r key (JStr dflt))"

text \<open>The line of the report for one record.\<close>

definition line_text :: "runtime \<Rightarrow> (pystr \<times> json) list \<Rightarrow> pystr" where
  "line_text rt r =
     seg_series @ shown rt r (ascii ''series'') dflt_series @
     seg_model @ shown rt r (ascii ''model'') dflt_model @
     seg_watt @ shown rt r (ascii ''watt'') (ascii ''?'') @
     seg_cct @ shown rt r (ascii ''cct'') (ascii ''?'') @
     seg_beam @ shown rt r (ascii ''beam'') (ascii ''?'') @
     seg_lumen @ shown rt r (ascii ''lumen'') (ascii ''?'') @
     seg_price @ shown rt r (ascii ''price'') (ascii ''?'') @ seg_end"

text \<open>Nothing that existed in the store \<open>h\<close> differs in the store \<open>h'\<close>: every
  object is the same, and so is every list at an address in use in \<open>h\<close>.\<close>

definition unchanged :: "heap \<Rightarrow> heap \<Rightarrow> bool" where
  "unchanged h h' \<longleftrightarrow>
     objs h' = objs h \<and> lim h \<le> lim h' \<and>
     (\<forall>a<lim h. rlists h' a = rlists h a \<and> slists h' a = slists h a)"

text \<open>The full filtered subsequence: the records that pass the keyword stage (when the
  keyword is active) and then the attribute stage, in the order of the input.\<close>

definition survivors ::
  "runtime \<Rightarrow> pystr \<Rightarrow> bounds \<Rightarrow> (pystr \<times> json) list list \<Rightarrow> (pystr \<times> json) list list" where
  "survivors rt kw b rs =
     filter (spec_in_bounds rt b)
       (if kw_active kw then filter (spec_keyword_match rt (strip kw)) rs else rs)"

text \<open>The five attributes.\<close>

definition attr_keys :: "pystr list" where
  "attr_keys = [ascii ''watt'', ascii ''cct'', ascii ''beam'', ascii ''lumen'', ascii ''price'']"

text \<open>A value that is no number: null, an array, an object, or text that does not read
  as a number. (To Python a Boolean is a number.)\<close>

fun non_numeric :: "runtime \<Rightarrow> json \<Rightarrow> bool" where
  "non_numeric rt JNull = True"
| "non_numeric rt (JArr xs) = True"
| "non_numeric rt (JObj kvs) = True"
| "non_numeric rt (JStr s) = (float_of_str rt s = None)"
| "non_numeric rt v = False"

text \<open>The five values \<open>f key\<close> all lie within the bounds of their keys.\<close>

definition five_in_bounds :: "bounds \<Rightarrow> (pystr \<Rightarrow> pyfloat) \<Rightarrow> bool" where
  "five_in_bounds b f \<longleftrightarrow>
     in_range (watt_lo b) (watt_hi b) (f (ascii ''watt'')) \<and>
     in_range (cct_lo b) (cct_hi b) (f (ascii ''cct'')) \<and>
     in_range (beam_lo b) (beam_hi b) (f (ascii ''beam'')) \<and>
     in_range (lumen_lo b) (lumen_hi b) (f (ascii ''lumen'')) \<and>
     in_range (price_lo b) (price_hi b) (f (ascii ''price''))"

text \<open>The line of the report with the text \<open>s\<close> for the series, \<open>m\<close> for the model and
  \<open>f key\<close> for each of the five attributes.\<close>

definition line_of :: "pystr \<Rightarrow> pystr \<Rightarrow> (pystr \<Rightarrow> pystr) \<Rightarrow> pystr" where
  "line_of s m f =
     seg_series @ s @ seg_model @ m @
     seg_watt @ f (ascii ''watt'') @ seg_cct @ f (ascii ''cct'') @
     seg_beam @ f (ascii ''beam'') @ seg_lumen @ f (ascii ''lumen'') @
     seg_price @ f (ascii ''price'') @ seg_end"

text \<open>\<open>str(v)\<close> returns at the depth \<open>d\<close>: the value is a \<open>str\<close>, or its arrays and
  objects are nested no deeper than \<open>d\<close> allows.\<close>

fun str_returns :: "nat \<Rightarrow> json \<Rightarrow> bool" where
  "str_returns d (JStr s) = True"
| "str_returns d v = (repr_depth v \<le> d)"

text \<open>No field of the record that \<open>filter_products\<close> may turn into text is nested too
  deep: \<open>series\<close> and \<open>model\<close> for line 52, and these and the five attributes for lines
  90 to 96. (An absent field is a default, which is a \<open>str\<close>.)\<close>

definition shallow :: "depths \<Rightarrow> (pystr \<times> json) list \<Rightarrow> bool" where
  "shallow ds r \<longleftrightarrow>
     list_all (\<lambda>key. str_returns (str_depth ds) (dict_get r key (JStr [])))
       [ascii ''series'', ascii ''model''] \<and>
     list_all (\<lambda>key. str_returns (fmt_depth ds) (dict_get r key (JStr [])))
       (ascii ''series'' # ascii ''model'' # attr_keys)"

subsection \<open>Data for the examples\<close>

text \<open>
  One instance of the runtime's parameters, for evaluating examples. It reads a string
  of at most 15 decimal digits as that number (as \<open>float\<close> does) and refuses every other
  string; it writes a string between single quotes. Of its four functions the examples
  apply \<open>float_of_str\<close> only, and only to text that is no number. Every theorem that is
  not an example is proved for all runtimes.
\<close>

definition example_rt :: runtime where
  "example_rt =
     \<lparr>float_of_str =
        (\<lambda>s. if s \<noteq> [] \<and> length s \<le> 15 \<and> list_all (\<lambda>c. 48 \<le> c \<and> c \<le> 57) s
             then Some (Finite (of_int (foldl (\<lambda>a c. 10 * a + (c - 48)) 0 s)))
             else None),
      float_of_big = (\<lambda>n. None),
      repr_float = (\<lambda>f. ascii ''nan''),
      repr_str = (\<lambda>s. [39] @ s @ [39])\<rparr>"

text \<open>The initial positions of the sliders (lines 112 to 126).\<close>

definition default_bounds :: bounds where
  "default_bounds =
     \<lparr>watt_lo = Finite 0, watt_hi = Finite 200, cct_lo = Finite 2700, cct_hi = Finite 6500,
      beam_lo = Finite 0, beam_hi = Finite 120, lumen_lo = Finite 0, lumen_hi = Finite 15000,
      price_lo = Finite 0, price_hi = Finite 200000\<rparr>"

text \<open>The record of the specification's scenarios B and C.\<close>

definition track_100 :: "(pystr \<times> json) list" where
  "track_100 =
     [(ascii ''series'', JStr (ascii ''Track-100'')), (ascii ''model'', JStr (ascii ''TR-1'')),
      (ascii ''watt'', JInt 30), (ascii ''cct'', JInt 3000), (ascii ''beam'', JInt 24),
      (ascii ''lumen'', JInt 2000), (ascii ''price'', JInt 500)]"

text \<open>A store for the examples: the list \<open>products\<close> at address 0, of two records.\<close>

definition example_heap :: heap where
  "example_heap =
     \<lparr>objs = (\<lambda>a. if a = 0 then JObj track_100 else JObj []),
      rlists = (\<lambda>a. if a = 0 then [0, 1] else []),
      slists = (\<lambda>a. []),
      lim = 2\<rparr>"

text \<open>The record of scenario D: the record above without its \<open>watt\<close>. Then the same
  with a \<open>watt\<close> that is null, and with a \<open>watt\<close> that is the text of one question
  mark.\<close>

definition no_watt :: "(pystr \<times> json) list" where
  "no_watt =
     [(ascii ''series'', JStr (ascii ''Track-100'')), (ascii ''model'', JStr (ascii ''TR-1'')),
      (ascii ''cct'', JInt 3000), (ascii ''beam'', JInt 24),
      (ascii ''lumen'', JInt 2000), (ascii ''price'', JInt 500)]"

definition null_watt :: "(pystr \<times> json) list" where
  "null_watt = (ascii ''watt'', JNull) # no_watt"

definition text_watt :: "(pystr \<times> json) list" where
  "text_watt = (ascii ''watt'', JStr (ascii ''?'')) # no_watt"

text \<open>\<open>n\<close> arrays, one inside the other, around null; and the record of scenario B
  with 985 such arrays as its \<open>series\<close>.\<close>

fun nested :: "nat \<Rightarrow> json" where
  "nested 0 = JNull"
| "nested (Suc n) = JArr [nested n]"

definition deep_series :: "(pystr \<times> json) list" where
  "deep_series =
     [(ascii ''series'', nested 985), (ascii ''model'', JStr (ascii ''TR-1'')),
      (ascii ''watt'', JInt 30), (ascii ''cct'', JInt 3000), (ascii ''beam'', JInt 24),
      (ascii ''lumen'', JInt 2000), (ascii ''price'', JInt 500)]"

text \<open>Depths for the examples: an interpreter with the usual limit of 1000, in which
  \<open>filter_products\<close> is called some thirty frames deep.\<close>

definition example_depths :: depths where
  "example_depths = \<lparr>str_depth = 970, fmt_depth = 970\<rparr>"

section \<open>The stages on records that are objects\<close>

lemma py_in_sublist: "py_in q s \<longleftrightarrow> sublist q s"
  by (induction s) (simp_all add: sublist_Cons_right)

lemma obj_cases: "is_obj p \<Longrightarrow> \<exists>r. p = JObj r"
  by (cases p) simp_all

lemma py_get_non_obj: "\<not> is_obj p \<Longrightarrow> py_get p key dflt = Inl (AttributeError p)"
  by (cases p) simp_all

lemma bindE_Inr: "bindE m f = Inr y \<Longrightarrow> \<exists>x. m = Inr x \<and> f x = Inr y"
  by (cases m) simp_all

lemma objs_map: "list_all is_obj ps \<Longrightarrow> \<exists>rs. ps = map JObj rs"
proof (induction ps)
  case Nil
  show ?case by simp
next
  case (Cons p ps)
  from Cons.prems have "is_obj p" and "list_all is_obj ps" by simp_all
  then obtain r rs where "p = JObj r" "ps = map JObj rs"
    using obj_cases Cons.IH by blast
  then have "p # ps = map JObj (r # rs)" by simp
  then show ?case by (rule exI)
qed

subsection \<open>Keyword stage\<close>

lemma kw_match_obj: "kw_match rt q (JObj r) = Inr (spec_keyword_match rt q r)"
  by (simp add: kw_match_def spec_keyword_match_def py_in_sublist)

lemma kw_match_non_obj: "\<not> is_obj p \<Longrightarrow> kw_match rt q p = Inl (AttributeError p)"
  by (simp add: kw_match_def py_get_non_obj)

lemma keyword_stage_objs:
  "keyword_stage rt q (map JObj rs) = Inr (map JObj (filter (spec_keyword_match rt q) rs))"
  by (induction rs) (simp_all add: kw_match_obj)

lemma keyword_stage_Inr_objs: "keyword_stage rt q ps = Inr base \<Longrightarrow> list_all is_obj ps"
proof (induction ps arbitrary: base)
  case Nil
  show ?case by simp
next
  case (Cons p ps)
  from Cons.prems obtain keep where k: "kw_match rt q p = Inr keep"
    and rest: "bindE (keyword_stage rt q ps) (\<lambda>rest. Inr (if keep then p # rest else rest)) = Inr base"
    using bindE_Inr [of "kw_match rt q p"] by fastforce
  from rest obtain base' where "keyword_stage rt q ps = Inr base'"
    using bindE_Inr [of "keyword_stage rt q ps"] by fastforce
  then have "list_all is_obj ps" by (rule Cons.IH)
  moreover have "is_obj p"
    using k kw_match_non_obj [of p rt q] by auto
  ultimately show ?case by simp
qed

subsection \<open>Attribute stage\<close>

lemma attr_value_obj: "attr_value rt (JObj r) key = Inr (coerced rt r key)"
  by (simp add: attr_value_def coerced_def)

lemma attr_value_non_obj: "\<not> is_obj p \<Longrightarrow> attr_value rt p key = Inl (AttributeError p)"
  by (simp add: attr_value_def py_get_non_obj)

lemma if_chain5:
  "(if \<not> A then x else if \<not> B then x else if \<not> C then x else if \<not> D then x
    else if \<not> E then x else y) = (if A \<and> B \<and> C \<and> D \<and> E then y else x)"
  by simp

text \<open>The body of the loop on an object: the five \<open>continue\<close> statements together
  are the negation of the conjunction.\<close>

lemma attr_keep_obj: "attr_keep rt b (JObj r) = Inr (spec_in_bounds rt b r)"
proof -
  have "attr_keep rt b (JObj r) = (if spec_in_bounds rt b r then Inr True else Inr False)"
    by (simp only: attr_keep_def attr_value_obj bindE.simps in_range_def [symmetric]
        if_chain5 spec_in_bounds_def)
  then show ?thesis by simp
qed

lemma attr_keep_non_obj: "\<not> is_obj p \<Longrightarrow> attr_keep rt b p = Inl (AttributeError p)"
  by (simp add: attr_keep_def attr_value_non_obj)

lemma attr_loop_obj_step:
  "attr_loop rt b acc (JObj r # ps) =
     attr_loop rt b (if spec_in_bounds rt b r then acc @ [JObj r] else acc) ps"
  by (simp only: attr_loop.simps attr_keep_obj bindE.simps)

lemma attr_loop_non_obj:
  "\<not> is_obj p \<Longrightarrow> attr_loop rt b acc (p # ps) = Inl (AttributeError p)"
  by (simp add: attr_keep_non_obj)

lemma attr_loop_objs:
  "attr_loop rt b acc (map JObj rs) = Inr (acc @ map JObj (filter (spec_in_bounds rt b) rs))"
proof (induction rs arbitrary: acc)
  case Nil
  show ?case by simp
next
  case (Cons r rs)
  have "attr_loop rt b acc (map JObj (r # rs)) =
        attr_loop rt b (if spec_in_bounds rt b r then acc @ [JObj r] else acc) (map JObj rs)"
    by (simp only: list.map attr_loop_obj_step)
  also have "\<dots> = Inr ((if spec_in_bounds rt b r then acc @ [JObj r] else acc) @
                       map JObj (filter (spec_in_bounds rt b) rs))"
    by (rule Cons.IH)
  also have "\<dots> = Inr (acc @ map JObj (filter (spec_in_bounds rt b) (r # rs)))"
    by simp
  finally show ?case .
qed

lemma attr_loop_Inr_objs: "attr_loop rt b acc ps = Inr result \<Longrightarrow> list_all is_obj ps"
proof (induction ps arbitrary: acc)
  case Nil
  show ?case by simp
next
  case (Cons p ps)
  have p: "is_obj p"
    using Cons.prems attr_loop_non_obj [of p rt b acc ps] by auto
  then obtain r where r: "p = JObj r"
    using obj_cases by blast
  from Cons.prems
  have "attr_loop rt b (if spec_in_bounds rt b r then acc @ [JObj r] else acc) ps = Inr result"
    by (simp only: r attr_loop_obj_step)
  then have "list_all is_obj ps" by (rule Cons.IH)
  with p show ?case by simp
qed

subsection \<open>Rendering stage\<close>

lemma shown_field_obj: "shown_field rt (JObj r) key dflt = Inr (shown rt r key dflt)"
  by (simp add: shown_field_def shown_def)

lemma render_line_obj: "render_line rt (JObj r) = Inr (line_text rt r)"
  by (simp add: render_line_def shown_field_obj line_text_def)

lemma render_loop_objs:
  "render_loop rt lines (map JObj rs) = Inr (lines @ map (line_text rt) rs)"
  by (induction rs arbitrary: lines) (simp_all add: render_line_obj)

lemma py_slice_to_map: "py_slice_to k (map f xs) = map f (py_slice_to k xs)"
  by (simp add: py_slice_to_def take_map)

lemma py_slice_to_prefix: "prefix (py_slice_to k xs) xs"
  by (simp add: py_slice_to_def take_is_prefix)

subsection \<open>The whole function\<close>

text \<open>On a list of objects \<open>filter_products\<close> returns one of its four messages or the
  report: the header and one line for each record of the slice of the survivors.\<close>

lemma filter_products_objs:
  "filter_products rt (map JObj rs) kw b topk =
     Inr (if rs = [] then msg_not_loaded
          else if kw_active kw \<and> filter (spec_keyword_match rt (strip kw)) rs = []
            then no_match_pre @ kw @ no_match_suf
          else if survivors rt kw b rs = []
            then (if kw_active kw then kw_no_attr_pre @ kw @ kw_no_attr_suf else msg_no_attr)
          else join [10]
                 (header (int (length (survivors rt kw b rs))) topk #
                  map (line_text rt) (py_slice_to topk (survivors rt kw b rs))))"
proof (cases "kw_active kw")
  case True
  then have k: "kw \<noteq> []" "strip kw \<noteq> []"
    by (simp_all add: kw_active_def)
  show ?thesis
    using True
    by (simp add: filter_products_def k survivors_def keyword_stage_objs
        attr_loop_objs render_loop_objs py_slice_to_map)
next
  case False
  then have k: "(kw \<noteq> [] \<and> strip kw \<noteq> []) = False"
    by (simp add: kw_active_def)
  show ?thesis
    using False
    by (simp add: filter_products_def k survivors_def
        attr_loop_objs render_loop_objs py_slice_to_map)
qed

lemma filter_products_Inr_objs:
  assumes "filter_products rt ps kw b topk = Inr out"
  shows "list_all is_obj ps"
proof (cases "ps = []")
  case True
  then show ?thesis by simp
next
  case False
  show ?thesis
  proof (cases "kw_active kw")
    case True
    then have k: "kw \<noteq> []" "strip kw \<noteq> []"
      by (simp_all add: kw_active_def)
    from assms False obtain base where "keyword_stage rt (strip kw) ps = Inr base"
      using bindE_Inr [of "keyword_stage rt (strip kw) ps"]
      by (fastforce simp add: filter_products_def k)
    then show ?thesis by (rule keyword_stage_Inr_objs)
  next
    case nk: False
    then have k: "(kw \<noteq> [] \<and> strip kw \<noteq> []) = False"
      by (simp add: kw_active_def)
    from assms False obtain result where "attr_loop rt b [] ps = Inr result"
      using bindE_Inr [of "attr_loop rt b [] ps"]
      by (fastforce simp add: filter_products_def k)
    then show ?thesis by (rule attr_loop_Inr_objs)
  qed
qed

lemma join_Cons: "join sep (x # xs) = x @ (if xs = [] then [] else sep @ join sep xs)"
  by (cases xs) simp_all

lemma survivors_subseq: "subseq (survivors rt kw b rs) rs"
proof -
  have "subseq (filter (spec_in_bounds rt b) (filter (spec_keyword_match rt (strip kw)) rs)) rs"
    by (rule subseq_order.trans [OF subseq_filter_left subseq_filter_left])
  then show ?thesis
    by (simp add: survivors_def)
qed

subsection \<open>One record, no keyword\<close>

lemma spec_in_bounds_five: "spec_in_bounds rt b r = five_in_bounds b (coerced rt r)"
  by (simp add: spec_in_bounds_def five_in_bounds_def)

lemma line_text_line_of:
  "line_text rt r =
     line_of (shown rt r (ascii ''series'') dflt_series) (shown rt r (ascii ''model'') dflt_model)
       (\<lambda>k. shown rt r k (ascii ''?''))"
  by (simp add: line_text_def line_of_def)

lemma coerced_absent: "map_of r key = None \<Longrightarrow> coerced rt r key = Finite 0"
  by (simp add: coerced_def dict_get_def num_def)

lemma coerced_non_numeric:
  "map_of r key = Some v \<Longrightarrow> non_numeric rt v \<Longrightarrow> coerced rt r key = Finite 0"
  by (cases v) (simp_all add: coerced_def dict_get_def num_def)

lemma shown_absent: "map_of r key = None \<Longrightarrow> shown rt r key dflt = dflt"
  by (simp add: shown_def dict_get_def)

lemma shown_present: "map_of r key = Some v \<Longrightarrow> shown rt r key dflt = py_str rt v"
  by (simp add: shown_def dict_get_def)

lemma fun_upd_same_value: "f k = c \<Longrightarrow> f(k := c) = f"
  by auto

lemma filter_products_one:
  "filter_products rt [JObj r] [] b topk =
     Inr (if spec_in_bounds rt b r
          then join [10] (header 1 topk # (if 0 < topk then [line_text rt r] else []))
          else msg_no_attr)"
proof -
  have k: "\<not> kw_active []"
    by (simp add: kw_active_def)
  have s: "py_slice_to topk [r] = (if 0 < topk then [r] else [])"
    by (simp add: py_slice_to_def)
  show ?thesis
    using filter_products_objs [of rt "[r]" "[]" b topk] k
    by (simp add: survivors_def s)
qed

section \<open>The recursion limit\<close>

text \<open>When \<open>str\<close> returns for every field that \<open>filter_products\<close> may turn into text,
  the function with the recursion limit returns what the function without it returns.\<close>

lemma py_str_lim_eq:
  "py_str_lim rt d v = (if str_returns d v then Inr (py_str rt v) else Inl RecursionError)"
  by (cases v) simp_all

lemma str_returns_dflt:
  "str_returns d (dict_get r key (JStr x)) = str_returns d (dict_get r key (JStr []))"
  by (simp add: dict_get_def split: option.split)

lemma shallow_str:
  assumes "shallow ds r"
  shows "str_returns (str_depth ds) (dict_get r (ascii ''series'') (JStr x))"
    and "str_returns (str_depth ds) (dict_get r (ascii ''model'') (JStr x))"
  using assms str_returns_dflt [of "str_depth ds" r _ x]
  by (simp_all add: shallow_def)

lemma shallow_fmt:
  assumes "shallow ds r"
  shows "str_returns (fmt_depth ds) (dict_get r (ascii ''series'') (JStr x))"
    and "str_returns (fmt_depth ds) (dict_get r (ascii ''model'') (JStr x))"
    and "str_returns (fmt_depth ds) (dict_get r (ascii ''watt'') (JStr x))"
    and "str_returns (fmt_depth ds) (dict_get r (ascii ''cct'') (JStr x))"
    and "str_returns (fmt_depth ds) (dict_get r (ascii ''beam'') (JStr x))"
    and "str_returns (fmt_depth ds) (dict_get r (ascii ''lumen'') (JStr x))"
    and "str_returns (fmt_depth ds) (dict_get r (ascii ''price'') (JStr x))"
  using assms str_returns_dflt [of "fmt_depth ds" r _ x]
  by (simp_all add: shallow_def attr_keys_def)

lemma kw_match_lim_obj:
  "shallow ds r \<Longrightarrow> kw_match_lim rt (str_depth ds) q (JObj r) = Inr (spec_keyword_match rt q r)"
  by (simp add: kw_match_lim_def py_str_lim_eq shallow_str spec_keyword_match_def py_in_sublist)

lemma kw_match_lim_non_obj:
  "\<not> is_obj p \<Longrightarrow> kw_match_lim rt d q p = Inl (AttributeError p)"
  by (simp add: kw_match_lim_def py_get_non_obj)

lemma keyword_stage_lim_objs:
  "list_all (shallow ds) rs \<Longrightarrow>
   keyword_stage_lim rt (str_depth ds) q (map JObj rs) =
     Inr (map JObj (filter (spec_keyword_match rt q) rs))"
  by (induction rs) (simp_all add: kw_match_lim_obj)

lemma keyword_stage_lim_Inr_objs:
  "keyword_stage_lim rt d q ps = Inr base \<Longrightarrow> list_all is_obj ps"
proof (induction ps arbitrary: base)
  case Nil
  show ?case by simp
next
  case (Cons p ps)
  from Cons.prems obtain keep where k: "kw_match_lim rt d q p = Inr keep"
    and rest: "bindE (keyword_stage_lim rt d q ps)
                 (\<lambda>rest. Inr (if keep then p # rest else rest)) = Inr base"
    using bindE_Inr [of "kw_match_lim rt d q p"] by fastforce
  from rest obtain base' where "keyword_stage_lim rt d q ps = Inr base'"
    using bindE_Inr [of "keyword_stage_lim rt d q ps"] by fastforce
  then have "list_all is_obj ps" by (rule Cons.IH)
  moreover have "is_obj p"
    using k kw_match_lim_non_obj [of p rt d q] by auto
  ultimately show ?case by simp
qed

lemma shown_field_lim_obj:
  "str_returns d (dict_get r key (JStr dflt)) \<Longrightarrow>
   shown_field_lim rt d (JObj r) key dflt = Inr (shown rt r key dflt)"
  by (simp add: shown_field_lim_def py_str_lim_eq shown_def)

lemma render_line_lim_obj:
  "shallow ds r \<Longrightarrow> render_line_lim rt (fmt_depth ds) (JObj r) = Inr (line_text rt r)"
  by (simp add: render_line_lim_def shown_field_lim_obj shallow_fmt line_text_def)

lemma render_loop_lim_objs:
  "list_all (shallow ds) rs \<Longrightarrow>
   render_loop_lim rt (fmt_depth ds) lines (map JObj rs) = Inr (lines @ map (line_text rt) rs)"
  by (induction rs arbitrary: lines) (simp_all add: render_line_lim_obj)

lemma list_all_filter_keep: "list_all P xs \<Longrightarrow> list_all P (filter Q xs)"
  by (simp add: list_all_iff)

lemma list_all_slice_keep: "list_all P xs \<Longrightarrow> list_all P (py_slice_to k xs)"
  by (auto simp add: list_all_iff py_slice_to_def dest: in_set_takeD)

lemma filter_products_lim_objs:
  assumes "list_all (shallow ds) rs"
  shows "filter_products_lim rt ds (map JObj rs) kw b topk =
         filter_products rt (map JObj rs) kw b topk"
proof -
  have s: "list_all (shallow ds) (py_slice_to topk (survivors rt kw b rs))"
    using assms by (simp add: survivors_def list_all_filter_keep list_all_slice_keep)
  have r: "render_loop_lim rt (fmt_depth ds) [header (int (length (survivors rt kw b rs))) topk]
             (map JObj (py_slice_to topk (survivors rt kw b rs))) =
           Inr ([header (int (length (survivors rt kw b rs))) topk] @
                map (line_text rt) (py_slice_to topk (survivors rt kw b rs)))"
    by (rule render_loop_lim_objs [OF s])
  have "filter_products_lim rt ds (map JObj rs) kw b topk =
     Inr (if rs = [] then msg_not_loaded
          else if kw_active kw \<and> filter (spec_keyword_match rt (strip kw)) rs = []
            then no_match_pre @ kw @ no_match_suf
          else if survivors rt kw b rs = []
            then (if kw_active kw then kw_no_attr_pre @ kw @ kw_no_attr_suf else msg_no_attr)
          else join [10]
                 (header (int (length (survivors rt kw b rs))) topk #
                  map (line_text rt) (py_slice_to topk (survivors rt kw b rs))))"
  proof (cases "kw_active kw")
    case True
    then have k: "kw \<noteq> []" "strip kw \<noteq> []"
      by (simp_all add: kw_active_def)
    show ?thesis
      using True r
      by (simp add: filter_products_lim_def k survivors_def keyword_stage_lim_objs [OF assms]
          attr_loop_objs py_slice_to_map)
  next
    case False
    then have k: "(kw \<noteq> [] \<and> strip kw \<noteq> []) = False"
      by (simp add: kw_active_def)
    show ?thesis
      using False r
      by (simp add: filter_products_lim_def k survivors_def
          attr_loop_objs py_slice_to_map)
  qed
  then show ?thesis
    by (simp only: filter_products_objs)
qed

lemma filter_products_lim_Inr_objs:
  assumes "filter_products_lim rt ds ps kw b topk = Inr out"
  shows "list_all is_obj ps"
proof (cases "ps = []")
  case True
  then show ?thesis by simp
next
  case False
  show ?thesis
  proof (cases "kw_active kw")
    case True
    then have k: "kw \<noteq> []" "strip kw \<noteq> []"
      by (simp_all add: kw_active_def)
    from assms False obtain base where
      "keyword_stage_lim rt (str_depth ds) (strip kw) ps = Inr base"
      using bindE_Inr [of "keyword_stage_lim rt (str_depth ds) (strip kw) ps"]
      by (fastforce simp add: filter_products_lim_def k)
    then show ?thesis by (rule keyword_stage_lim_Inr_objs)
  next
    case nk: False
    then have k: "(kw \<noteq> [] \<and> strip kw \<noteq> []) = False"
      by (simp add: kw_active_def)
    from assms False obtain result where "attr_loop rt b [] ps = Inr result"
      using bindE_Inr [of "attr_loop rt b [] ps"]
      by (fastforce simp add: filter_products_lim_def k)
    then show ?thesis by (rule attr_loop_Inr_objs)
  qed
qed

text \<open>Whenever the function with the recursion limit returns a text, the function
  without it returns that same text: what is proved of the texts of \<open>filter_products\<close>
  holds of every call that returns.\<close>

lemma py_str_lim_Inr: "py_str_lim rt d v = Inr t \<Longrightarrow> py_str rt v = t"
  by (cases v) (auto split: if_splits)

lemma kw_match_lim_Inr: "kw_match_lim rt d q p = Inr k \<Longrightarrow> kw_match rt q p = Inr k"
proof -
  assume a: "kw_match_lim rt d q p = Inr k"
  then obtain s where s: "py_get p (ascii ''series'') (JStr []) = Inr s"
    using bindE_Inr [of "py_get p (ascii ''series'') (JStr [])"]
    by (fastforce simp add: kw_match_lim_def)
  with a obtain st where st: "py_str_lim rt d s = Inr st"
    using bindE_Inr [of "py_str_lim rt d s"]
    by (fastforce simp add: kw_match_lim_def)
  then have t: "py_str rt s = st" by (rule py_str_lim_Inr)
  show ?thesis
  proof (cases "py_in q st")
    case True
    with a s st t show ?thesis
      by (simp add: kw_match_lim_def kw_match_def)
  next
    case False
    with a s st obtain m where m: "py_get p (ascii ''model'') (JStr []) = Inr m"
      using bindE_Inr [of "py_get p (ascii ''model'') (JStr [])"]
      by (fastforce simp add: kw_match_lim_def)
    with a s st False obtain mt where mt: "py_str_lim rt d m = Inr mt"
      using bindE_Inr [of "py_str_lim rt d m"]
      by (fastforce simp add: kw_match_lim_def)
    then have "py_str rt m = mt" by (rule py_str_lim_Inr)
    with a s st t False m mt show ?thesis
      by (simp add: kw_match_lim_def kw_match_def)
  qed
qed

lemma keyword_stage_lim_Inr:
  "keyword_stage_lim rt d q ps = Inr base \<Longrightarrow> keyword_stage rt q ps = Inr base"
proof (induction ps arbitrary: base)
  case Nil
  then show ?case by simp
next
  case (Cons p ps)
  from Cons.prems obtain keep where k: "kw_match_lim rt d q p = Inr keep"
    and rest: "bindE (keyword_stage_lim rt d q ps)
                 (\<lambda>rest. Inr (if keep then p # rest else rest)) = Inr base"
    using bindE_Inr [of "kw_match_lim rt d q p"] by fastforce
  from rest obtain base' where b: "keyword_stage_lim rt d q ps = Inr base'"
    using bindE_Inr [of "keyword_stage_lim rt d q ps"] by fastforce
  have "keyword_stage rt q ps = Inr base'"
    using b by (rule Cons.IH)
  with k rest b show ?case
    by (simp add: kw_match_lim_Inr)
qed

lemma shown_field_lim_Inr:
  "shown_field_lim rt d it key dflt = Inr t \<Longrightarrow> shown_field rt it key dflt = Inr t"
proof -
  assume a: "shown_field_lim rt d it key dflt = Inr t"
  then obtain v where v: "py_get it key (JStr dflt) = Inr v" and s: "py_str_lim rt d v = Inr t"
    using bindE_Inr [of "py_get it key (JStr dflt)"]
    by (fastforce simp add: shown_field_lim_def)
  from s have "py_str rt v = t" by (rule py_str_lim_Inr)
  with v show ?thesis
    by (simp add: shown_field_def)
qed

lemma bindE_le:
  "bindE m f = Inr y \<Longrightarrow> (\<And>x. m = Inr x \<Longrightarrow> m' = Inr x) \<Longrightarrow>
   (\<And>x z. f x = Inr z \<Longrightarrow> f' x = Inr z) \<Longrightarrow> bindE m' f' = Inr y"
  by (cases m) auto

lemma render_line_lim_Inr:
  assumes "render_line_lim rt d it = Inr row"
  shows "render_line rt it = Inr row"
  apply (insert assms)
  apply (unfold render_line_lim_def render_line_def)
  apply (erule bindE_le, erule shown_field_lim_Inr)+
  apply assumption
  done

lemma render_loop_lim_Inr:
  "render_loop_lim rt d lines its = Inr out \<Longrightarrow> render_loop rt lines its = Inr out"
proof (induction its arbitrary: lines)
  case Nil
  then show ?case by simp
next
  case (Cons it its)
  from Cons.prems obtain row where r: "render_line_lim rt d it = Inr row"
    and rest: "render_loop_lim rt d (lines @ [row]) its = Inr out"
    using bindE_Inr [of "render_line_lim rt d it"] by fastforce
  from rest have "render_loop rt (lines @ [row]) its = Inr out"
    by (rule Cons.IH)
  with r show ?case
    by (simp add: render_line_lim_Inr)
qed


lemma render_tail_lim_Inr:
  "bindE (attr_loop rt b [] base)
     (\<lambda>result. if result = [] then x
        else bindE (render_loop_lim rt d [header (int (length result)) topk]
                      (py_slice_to topk result))
               (\<lambda>lines. Inr (join [10] lines))) = Inr out \<Longrightarrow>
   bindE (attr_loop rt b [] base)
     (\<lambda>result. if result = [] then x
        else bindE (render_loop rt [header (int (length result)) topk]
                      (py_slice_to topk result))
               (\<lambda>lines. Inr (join [10] lines))) = Inr out"
  apply (erule bindE_le)
   apply assumption
  apply (simp split: if_splits)
  apply (erule bindE_le)
   apply (erule render_loop_lim_Inr)
  apply assumption
  done

lemma filter_products_lim_Inr:
  assumes "filter_products_lim rt ds ps kw b topk = Inr out"
  shows "filter_products rt ps kw b topk = Inr out"
proof (cases "ps = []")
  case True
  with assms show ?thesis
    by (simp add: filter_products_lim_def filter_products_def)
next
  case ne: False
  show ?thesis
  proof (cases "kw_active kw")
    case True
    then have k: "kw \<noteq> []" "strip kw \<noteq> []"
      by (simp_all add: kw_active_def)
    from assms show ?thesis
      apply (simp add: ne k filter_products_lim_def filter_products_def)
      apply (erule bindE_le)
       apply (erule keyword_stage_lim_Inr)
      apply (simp split: if_splits)
      apply (erule render_tail_lim_Inr)
      done
  next
    case False
    then have k: "(kw \<noteq> [] \<and> strip kw \<noteq> []) = False"
      by (simp add: kw_active_def)
    from assms show ?thesis
      apply (simp add: ne k filter_products_lim_def filter_products_def cong: if_cong)
      apply (erule render_tail_lim_Inr)
      done
  qed
qed

text \<open>\<open>str\<close> of arrays nested deeper than the depth that remains.\<close>

lemma repr_depth_nested: "repr_depth (nested n) = Suc n"
  by (induction n) simp_all

lemma py_str_lim_nested: "d \<le> n \<Longrightarrow> py_str_lim rt d (nested n) = Inl RecursionError"
  by (cases n) (simp_all add: repr_depth_nested)


lemma deep_series_kept:
  "attr_loop example_rt default_bounds [] [JObj deep_series] = Inr [JObj deep_series]"
proof -
  have "spec_in_bounds example_rt default_bounds deep_series"
    by (simp add: spec_in_bounds_def in_range_def coerced_def dict_get_def deep_series_def
        default_bounds_def num_def ascii_def)
  then show ?thesis
    using attr_loop_objs [of example_rt default_bounds "[]" "[deep_series]"] by simp
qed

section \<open>The store\<close>

text \<open>When the loop appends to a list other than the one it reads, it returns, and it
  changes that list only. (When the two are the same list, every round makes the list
  longer and the loop has no end.)\<close>

lemma select_loop_eq:
  assumes "src \<noteq> dst"
  shows "select_loop keep src dst i h =
           Some (case sel keep (objs h) (rlists h dst) (drop i (rlists h src)) of
                   (res, acc) \<Rightarrow> (res, h\<lparr>rlists := (rlists h)(dst := acc)\<rparr>))"
proof (induction "length (rlists h src) - i" arbitrary: i h)
  case 0
  then have "\<not> i < length (rlists h src)" by simp
  then show ?case
    by (subst select_loop.simps) simp
next
  case (Suc n)
  then have lt: "i < length (rlists h src)" by simp
  let ?p = "rlists h src ! i"
  have dr: "drop i (rlists h src) = ?p # drop (Suc i) (rlists h src)"
    using lt by (simp add: Cons_nth_drop_Suc)
  show ?case
  proof (cases "keep (objs h ?p)")
    case (Inl e)
    with lt dr show ?thesis
      by (subst select_loop.simps) simp
  next
    case (Inr k)
    let ?h = "if k then append_ref dst ?p h else h"
    have same: "rlists ?h src = rlists h src" "objs ?h = objs h"
      using assms by (simp_all add: append_ref_def)
    have acc: "rlists ?h dst = (if k then rlists h dst @ [?p] else rlists h dst)"
      by (simp add: append_ref_def)
    have upd: "\<And>a. ?h\<lparr>rlists := (rlists ?h)(dst := a)\<rparr> = h\<lparr>rlists := (rlists h)(dst := a)\<rparr>"
      by (simp add: append_ref_def)
    have n: "n = length (rlists ?h src) - Suc i"
      using Suc.hyps(2) same by simp
    have "select_loop keep src dst i h = select_loop keep src dst (Suc i) ?h"
      using lt Inr by (subst select_loop.simps) simp
    also have "\<dots> = Some (case sel keep (objs ?h) (rlists ?h dst) (drop (Suc i) (rlists ?h src)) of
                   (res, acc) \<Rightarrow> (res, ?h\<lparr>rlists := (rlists ?h)(dst := acc)\<rparr>))"
      by (rule Suc.hyps(1) [OF n])
    also have "\<dots> = Some (case sel keep (objs h) (rlists h dst) (drop i (rlists h src)) of
                   (res, acc) \<Rightarrow> (res, h\<lparr>rlists := (rlists h)(dst := acc)\<rparr>))"
      by (simp only: same acc upd dr sel.simps Inr sum.case)
    finally show ?thesis .
  qed
qed


lemma render_loop_h_eq:
  "render_loop_h rt src dst i h =
     Some (case ren rt (objs h) (slists h dst) (drop i (rlists h src)) of
             (res, acc) \<Rightarrow> (res, h\<lparr>slists := (slists h)(dst := acc)\<rparr>))"
proof (induction "length (rlists h src) - i" arbitrary: i h)
  case 0
  then have "\<not> i < length (rlists h src)" by simp
  then show ?case
    by (subst render_loop_h.simps) simp
next
  case (Suc n)
  then have lt: "i < length (rlists h src)" by simp
  let ?p = "rlists h src ! i"
  have dr: "drop i (rlists h src) = ?p # drop (Suc i) (rlists h src)"
    using lt by (simp add: Cons_nth_drop_Suc)
  show ?case
  proof (cases "render_line rt (objs h ?p)")
    case (Inl e)
    with lt dr show ?thesis
      by (subst render_loop_h.simps) simp
  next
    case (Inr row)
    let ?h = "append_str dst row h"
    have same: "rlists ?h = rlists h" "objs ?h = objs h"
      by (simp_all add: append_str_def)
    have acc: "slists ?h dst = slists h dst @ [row]"
      by (simp add: append_str_def)
    have upd: "\<And>a. ?h\<lparr>slists := (slists ?h)(dst := a)\<rparr> = h\<lparr>slists := (slists h)(dst := a)\<rparr>"
      by (simp add: append_str_def)
    have n: "n = length (rlists ?h src) - Suc i"
      using Suc.hyps(2) same by simp
    have "render_loop_h rt src dst i h = render_loop_h rt src dst (Suc i) ?h"
      using lt Inr by (subst render_loop_h.simps) simp
    also have "\<dots> = Some (case ren rt (objs ?h) (slists ?h dst) (drop (Suc i) (rlists ?h src)) of
                   (res, acc) \<Rightarrow> (res, ?h\<lparr>slists := (slists ?h)(dst := acc)\<rparr>))"
      by (rule Suc.hyps(1) [OF n])
    also have "\<dots> = Some (case ren rt (objs h) (slists h dst) (drop i (rlists h src)) of
                   (res, acc) \<Rightarrow> (res, h\<lparr>slists := (slists h)(dst := acc)\<rparr>))"
      by (simp only: same acc upd dr ren.simps Inr sum.case)
    finally show ?thesis .
  qed
qed

lemma bindE_Inr_id: "bindE m Inr = m"
  by (cases m) simp_all

lemma sel_attr_loop:
  "attr_loop rt b (map ob acc) (map ob xs) =
     (case sel (attr_keep rt b) ob acc xs of
        (Inl e, a) \<Rightarrow> Inl e
      | (Inr u, a) \<Rightarrow> Inr (map ob a))"
proof (induction xs arbitrary: acc)
  case Nil
  show ?case by simp
next
  case (Cons p ps)
  show ?case
  proof (cases "attr_keep rt b (ob p)")
    case (Inl e)
    then show ?thesis by simp
  next
    case (Inr k)
    have "attr_loop rt b (map ob acc) (map ob (p # ps)) =
          attr_loop rt b (map ob (if k then acc @ [p] else acc)) (map ob ps)"
      using Inr by simp
    also have "\<dots> = (case sel (attr_keep rt b) ob (if k then acc @ [p] else acc) ps of
        (Inl e, a) \<Rightarrow> Inl e
      | (Inr u, a) \<Rightarrow> Inr (map ob a))"
      by (rule Cons.IH)
    finally show ?thesis
      using Inr by simp
  qed
qed

lemma sel_keyword_stage:
  "bindE (keyword_stage rt q (map ob xs)) (\<lambda>r. Inr (map ob acc @ r)) =
     (case sel (kw_match rt q) ob acc xs of
        (Inl e, a) \<Rightarrow> Inl e
      | (Inr u, a) \<Rightarrow> Inr (map ob a))"
proof (induction xs arbitrary: acc)
  case Nil
  show ?case by simp
next
  case (Cons p ps)
  show ?case
  proof (cases "kw_match rt q (ob p)")
    case (Inl e)
    then show ?thesis by simp
  next
    case (Inr k)
    have "bindE (keyword_stage rt q (map ob (p # ps))) (\<lambda>r. Inr (map ob acc @ r)) =
          bindE (keyword_stage rt q (map ob ps))
            (\<lambda>r. Inr (map ob (if k then acc @ [p] else acc) @ r))"
      using Inr by (cases "keyword_stage rt q (map ob ps)") simp_all
    also have "\<dots> = (case sel (kw_match rt q) ob (if k then acc @ [p] else acc) ps of
        (Inl e, a) \<Rightarrow> Inl e
      | (Inr u, a) \<Rightarrow> Inr (map ob a))"
      by (rule Cons.IH)
    finally show ?thesis
      using Inr by simp
  qed
qed

lemma ren_render_loop:
  "render_loop rt acc (map ob xs) =
     (case ren rt ob acc xs of
        (Inl e, a) \<Rightarrow> Inl e
      | (Inr u, a) \<Rightarrow> Inr a)"
proof (induction xs arbitrary: acc)
  case Nil
  show ?case by simp
next
  case (Cons p ps)
  show ?case
  proof (cases "render_line rt (ob p)")
    case (Inl e)
    then show ?thesis by simp
  next
    case (Inr row)
    then show ?thesis
      using Cons.IH [of "acc @ [row]"] by simp
  qed
qed


lemma unchanged_refl: "unchanged h h"
  by (simp add: unchanged_def)

lemma unchanged_trans: "unchanged h h1 \<Longrightarrow> unchanged h1 h2 \<Longrightarrow> unchanged h h2"
  by (auto simp add: unchanged_def)

lemma attr_and_render_run:
  assumes "base < lim h"
  shows "\<exists>h'. attr_and_render rt kw skw base b topk h =
           Some (bindE (attr_loop rt b [] (map (objs h) (rlists h base)))
                   (\<lambda>result.
                      if result = [] then
                        (if kw then Inr (kw_no_attr_pre @ skw @ kw_no_attr_suf)
                         else Inr msg_no_attr)
                      else bindE (render_loop rt [header (int (length result)) topk]
                                    (py_slice_to topk result))
                             (\<lambda>lines. Inr (join [10] lines))), h') \<and>
           unchanged h h'"
proof -
  let ?r = "lim h"
  let ?h1 = "h\<lparr>rlists := (rlists h)(?r := []), lim := Suc ?r\<rparr>"
  let ?ob = "objs h"
  let ?xs = "rlists h base"
  obtain res acc where s: "sel (attr_keep rt b) ?ob [] ?xs = (res, acc)"
    by (cases "sel (attr_keep rt b) ?ob [] ?xs") blast
  let ?h2 = "?h1\<lparr>rlists := (rlists ?h1)(?r := acc)\<rparr>"
  have ne: "base \<noteq> ?r"
    using assms by simp
  have loop: "select_loop (attr_keep rt b) base ?r 0 ?h1 = Some (res, ?h2)"
    using ne s by (simp add: select_loop_eq [OF ne])
  have pure: "attr_loop rt b [] (map ?ob ?xs) =
                (case res of Inl e \<Rightarrow> Inl e | Inr u \<Rightarrow> Inr (map ?ob acc))"
    using sel_attr_loop [of rt b ?ob "[]" ?xs] s by (simp split: sum.splits)
  have u2: "unchanged h ?h2"
    by (simp add: unchanged_def)
  show ?thesis
  proof (cases res)
    case (Inl e)
    then show ?thesis
      using loop pure u2 by (auto simp add: attr_and_render_def new_rlist_def)
  next
    case (Inr u)
    show ?thesis
    proof (cases "acc = []")
      case True
      then show ?thesis
        using loop pure u2 Inr by (auto simp add: attr_and_render_def new_rlist_def)
    next
      case False
      let ?hdr = "header (int (length acc)) topk"
      let ?l = "Suc ?r"
      let ?h3 = "?h2\<lparr>slists := (slists ?h2)(?l := [?hdr]), lim := Suc ?l\<rparr>"
      let ?s = "Suc ?l"
      let ?h4 = "?h3\<lparr>rlists := (rlists ?h3)(?s := py_slice_to topk acc), lim := Suc ?s\<rparr>"
      obtain res' lines' where
        r: "ren rt ?ob [?hdr] (py_slice_to topk acc) = (res', lines')"
        by (cases "ren rt ?ob [?hdr] (py_slice_to topk acc)") blast
      let ?h5 = "?h4\<lparr>slists := (slists ?h4)(?l := lines')\<rparr>"
      have rl: "render_loop_h rt ?s ?l 0 ?h4 = Some (res', ?h5)"
        using r by (simp add: render_loop_h_eq)
      have pure2: "render_loop rt [?hdr] (py_slice_to topk (map ?ob acc)) =
                     (case res' of Inl e \<Rightarrow> Inl e | Inr u \<Rightarrow> Inr lines')"
        using ren_render_loop [of rt "[?hdr]" ?ob "py_slice_to topk acc"] r
        by (simp add: py_slice_to_map split: sum.splits)
      have u5: "unchanged h ?h5"
        by (simp add: unchanged_def)
      have run: "attr_and_render rt kw skw base b topk h =
                   (case res' of Inl e \<Rightarrow> Some (Inl e, ?h5)
                    | Inr u \<Rightarrow> Some (Inr (join [10] lines'), ?h5))"
        using loop Inr False rl
        by (simp add: attr_and_render_def new_rlist_def new_slist_def split: sum.splits)
      show ?thesis
        using run pure pure2 u5 Inr False
        by (cases res') auto
    qed
  qed
qed


text \<open>\<open>filter_products\<close> on the store returns what the function of the previous
  section returns on the records that the list \<open>products\<close> refers to, and leaves all
  that existed as it was.\<close>

lemma filter_products_h_run:
  assumes "products < lim h"
  shows "\<exists>h'. filter_products_h rt products kw b topk h =
           Some (filter_products rt (map (objs h) (rlists h products)) kw b topk, h') \<and>
           unchanged h h'"
proof (cases "rlists h products = []")
  case True
  then show ?thesis
    by (simp add: filter_products_h_def filter_products_def unchanged_refl)
next
  case ne: False
  let ?ob = "objs h"
  let ?xs = "rlists h products"
  show ?thesis
  proof (cases "kw_active kw")
    case False
    then have k: "(kw \<noteq> [] \<and> strip kw \<noteq> []) = False"
      by (simp add: kw_active_def)
    from attr_and_render_run [OF assms, of rt False kw b topk]
    show ?thesis
      using ne by (simp add: filter_products_h_def filter_products_def k)
  next
    case True
    then have k: "kw \<noteq> []" "strip kw \<noteq> []"
      by (simp_all add: kw_active_def)
    let ?q = "strip kw"
    let ?r = "lim h"
    let ?h1 = "h\<lparr>rlists := (rlists h)(?r := []), lim := Suc ?r\<rparr>"
    obtain res acc where s: "sel (kw_match rt ?q) ?ob [] ?xs = (res, acc)"
      by (cases "sel (kw_match rt ?q) ?ob [] ?xs") blast
    let ?h2 = "?h1\<lparr>rlists := (rlists ?h1)(?r := acc)\<rparr>"
    have d: "products \<noteq> ?r"
      using assms by simp
    have loop: "select_loop (kw_match rt ?q) products ?r 0 ?h1 = Some (res, ?h2)"
      using d s by (simp add: select_loop_eq [OF d])
    have pure: "keyword_stage rt ?q (map ?ob ?xs) =
                  (case res of Inl e \<Rightarrow> Inl e | Inr u \<Rightarrow> Inr (map ?ob acc))"
      using sel_keyword_stage [of rt ?q ?ob ?xs "[]"] s
      by (simp add: bindE_Inr_id split: sum.splits)
    have u2: "unchanged h ?h2"
      by (simp add: unchanged_def)
    show ?thesis
    proof (cases res)
      case (Inl e)
      then show ?thesis
        using loop pure u2 ne
        by (auto simp add: filter_products_h_def filter_products_def new_rlist_def k)
    next
      case (Inr u)
      show ?thesis
      proof (cases "acc = []")
        case True
        then show ?thesis
          using loop pure u2 ne Inr
          by (auto simp add: filter_products_h_def filter_products_def new_rlist_def k)
      next
        case False
        have lt: "?r < lim ?h2" by simp
        from attr_and_render_run [OF lt, of rt True kw b topk]
        obtain h' where
          run: "attr_and_render rt True kw ?r b topk ?h2 =
                  Some (bindE (attr_loop rt b [] (map ?ob acc))
                   (\<lambda>result.
                      if result = [] then Inr (kw_no_attr_pre @ kw @ kw_no_attr_suf)
                      else bindE (render_loop rt [header (int (length result)) topk]
                                    (py_slice_to topk result))
                             (\<lambda>lines. Inr (join [10] lines))), h')"
          and u: "unchanged ?h2 h'"
          by auto
        have "filter_products_h rt products kw b topk h =
                attr_and_render rt True kw ?r b topk ?h2"
          using loop ne Inr False
          by (simp add: filter_products_h_def new_rlist_def k)
        moreover have "filter_products rt (map ?ob ?xs) kw b topk =
                bindE (attr_loop rt b [] (map ?ob acc))
                   (\<lambda>result.
                      if result = [] then Inr (kw_no_attr_pre @ kw @ kw_no_attr_suf)
                      else bindE (render_loop rt [header (int (length result)) topk]
                                    (py_slice_to topk result))
                             (\<lambda>lines. Inr (join [10] lines)))"
          using pure ne Inr False
          by (simp add: filter_products_def k)
        ultimately show ?thesis
          using run unchanged_trans [OF u2 u] by simp
      qed
    qed
  qed
qed

section \<open>The properties of the specification\<close>

text \<open>
  C1, as the source has it. Whenever some record survives both stages, the report
  begins with the header line of line 87, which states the number of surviving records
  and then the display cap \<open>int(topk)\<close> ("showing the first \<open>topk\<close>"), whatever the
  number of records displayed; the lines of the displayed records follow it.
\<close>

theorem header_states_count_and_cap:
  assumes "rs \<noteq> []" and "survivors rt kw b rs \<noteq> []"
  shows "filter_products rt (map JObj rs) kw b topk =
           Inr (hdr_a @ str_int (int (length (survivors rt kw b rs))) @ hdr_b @
                str_int topk @ hdr_c @
                (if py_slice_to topk (survivors rt kw b rs) = [] then []
                 else [10] @ join [10]
                   (map (line_text rt) (py_slice_to topk (survivors rt kw b rs)))))"
proof -
  have "filter_products rt (map JObj rs) kw b topk =
          Inr (join [10] (header (int (length (survivors rt kw b rs))) topk #
                 map (line_text rt) (py_slice_to topk (survivors rt kw b rs))))"
    using assms by (auto simp add: filter_products_objs survivors_def)
  then show ?thesis
    by (simp add: join_Cons header_def)
qed

text \<open>Scenario B of the specification: one surviving record and \<open>topk = 20\<close>. The
  header holds the numbers 1 and 20.\<close>

theorem header_states_count_and_cap_witness:
  "[track_100] \<noteq> [] \<and> survivors example_rt [] default_bounds [track_100] \<noteq> [] \<and>
   filter_products example_rt (map JObj [track_100]) [] default_bounds 20 =
     Inr (hdr_a @ ascii ''1'' @ hdr_b @ ascii ''20'' @ hdr_c @ [10] @
          line_text example_rt track_100)"
proof -
  have s: "survivors example_rt [] default_bounds [track_100] = [track_100]"
    by code_simp
  have d: "py_slice_to 20 [track_100] = [track_100]"
    by (simp add: py_slice_to_def)
  have n: "str_int 1 = ascii ''1''" "str_int 20 = ascii ''20''"
    by code_simp+
  from header_states_count_and_cap [of "[track_100]" example_rt "[]" default_bounds 20]
  show ?thesis
    by (simp add: s d n)
qed

text \<open>C1 as stated fails in scenario B: one record is found and one is displayed, the
  report begins with the header for 1 and 20, and so not with a header for 1 and 1.\<close>

theorem header_displayed_count_counterexample:
  "survivors example_rt [] default_bounds [track_100] = [track_100] \<and>
   py_slice_to 20 [track_100] = [track_100] \<and>
   filter_products example_rt [JObj track_100] [] default_bounds 20 =
     Inr (header 1 20 @ [10] @ line_text example_rt track_100) \<and>
   \<not> prefix (header 1 1) (header 1 20 @ [10] @ line_text example_rt track_100)"
  by code_simp


text \<open>
  C2, as the source has it. \<open>filter_products\<close>, in an interpreter with a recursion
  limit, returns a text only if every element of the record collection is a JSON
  object. It does return a text, and raises nothing, for every collection of objects
  whose \<open>series\<close>, \<open>model\<close> and attribute values \<open>str\<close> can take at the depth that
  remains, whatever else the fields hold (text that is no number, null, nothing at
  all). An element that is no object makes \<open>p.get\<close> raise AttributeError, and a field
  whose arrays are nested too deep makes \<open>str\<close> raise RecursionError; no handler
  catches either.
\<close>

theorem returns_text_on_objects_within_depth:
  "((\<exists>out. filter_products_lim rt ds ps kw b topk = Inr out) \<longrightarrow> list_all is_obj ps) \<and>
   (list_all (shallow ds) rs \<longrightarrow>
      (\<exists>out. filter_products_lim rt ds (map JObj rs) kw b topk = Inr out))"
proof (intro conjI impI)
  assume "\<exists>out. filter_products_lim rt ds ps kw b topk = Inr out"
  then show "list_all is_obj ps"
    using filter_products_lim_Inr_objs by blast
next
  assume "list_all (shallow ds) rs"
  then have "filter_products_lim rt ds (map JObj rs) kw b topk =
             filter_products rt (map JObj rs) kw b topk"
    by (rule filter_products_lim_objs)
  then show "\<exists>out. filter_products_lim rt ds (map JObj rs) kw b topk = Inr out"
    by (simp only: filter_products_objs) blast
qed

text \<open>An instance: three objects, one with a \<open>watt\<close> that is no number and a \<open>cct\<close>
  that is null, and one with no field at all.\<close>

theorem returns_text_on_objects_within_depth_witness:
  "list_all (shallow example_depths)
     [track_100, [(ascii ''watt'', JStr (ascii ''n/a'')), (ascii ''cct'', JNull)], []] \<and>
   (\<exists>out. filter_products_lim example_rt example_depths
      (map JObj [track_100, [(ascii ''watt'', JStr (ascii ''n/a'')), (ascii ''cct'', JNull)], []])
      [] default_bounds 20 = Inr out)"
proof -
  have s: "list_all (shallow example_depths)
     [track_100, [(ascii ''watt'', JStr (ascii ''n/a'')), (ascii ''cct'', JNull)], []]"
    by code_simp
  from s returns_text_on_objects_within_depth
    [of example_rt example_depths "[]" "[]" default_bounds 20
        "[track_100, [(ascii ''watt'', JStr (ascii ''n/a'')), (ascii ''cct'', JNull)], []]"]
  show ?thesis by blast
qed

text \<open>C2 as stated fails: the collection \<open>[5]\<close>, which \<open>load_products\<close> accepts, makes
  \<open>filter_products\<close> raise AttributeError; and a collection of one object whose \<open>series\<close>
  is 985 arrays deep makes the f-string of line 90 raise RecursionError.\<close>

theorem non_object_or_deep_field_counterexample:
  "filter_products_lim example_rt example_depths [JInt 5] [] default_bounds 20 =
     Inl (AttributeError (JInt 5)) \<and>
   list_all is_obj [JObj deep_series] \<and>
   filter_products_lim example_rt example_depths [JObj deep_series] [] default_bounds 20 =
     Inl RecursionError"
proof -
  have a: "filter_products_lim example_rt example_depths [JInt 5] [] default_bounds 20 =
     Inl (AttributeError (JInt 5))"
    by code_simp
  have d: "py_str_lim example_rt 970 (nested 985) = Inl RecursionError"
    by (rule py_str_lim_nested) simp
  have g: "dict_get deep_series (ascii ''series'') (JStr dflt_series) = nested 985"
    by (simp add: dict_get_def deep_series_def)
  have "render_line_lim example_rt 970 (JObj deep_series) = Inl RecursionError"
    by (simp add: render_line_lim_def shown_field_lim_def g d)
  then have "filter_products_lim example_rt example_depths [JObj deep_series] [] default_bounds 20 =
     Inl RecursionError"
    by (simp add: filter_products_lim_def deep_series_kept py_slice_to_def example_depths_def
        del: attr_loop.simps)
  with a show ?thesis by simp
qed


text \<open>
  C3. For every record that is an object and each of the five attributes: when the key
  is absent, or holds a value that is no number (null, an array, an object, text that
  does not read as a number), the attribute stage compares \<open>0.0\<close> for it against the
  bounds, so that \<open>filter_products\<close> on that record keeps or drops it accordingly; and
  when the key is absent, the line of that same record in the report has the
  placeholder \<open>?\<close> for it. The other fields are compared and shown as they are.
\<close>

theorem absent_or_non_numeric_attribute:
  assumes "key \<in> set attr_keys"
    and "map_of r key = None \<or> (\<exists>v. map_of r key = Some v \<and> non_numeric rt v)"
  shows "attr_keep rt b (JObj r) = Inr (five_in_bounds b ((coerced rt r)(key := Finite 0))) \<and>
         filter_products rt [JObj r] [] b topk =
           Inr (if five_in_bounds b ((coerced rt r)(key := Finite 0))
                then join [10] (header 1 topk # (if 0 < topk then [line_text rt r] else []))
                else msg_no_attr) \<and>
         (map_of r key = None \<longrightarrow>
            render_line rt (JObj r) =
              Inr (line_of (shown rt r (ascii ''series'') dflt_series)
                     (shown rt r (ascii ''model'') dflt_model)
                     ((\<lambda>k. shown rt r k (ascii ''?''))(key := ascii ''?''))) \<and>
            line_text rt r =
              line_of (shown rt r (ascii ''series'') dflt_series)
                (shown rt r (ascii ''model'') dflt_model)
                ((\<lambda>k. shown rt r k (ascii ''?''))(key := ascii ''?'')))"
proof -
  have z: "coerced rt r key = Finite 0"
    using assms(2) coerced_absent coerced_non_numeric by blast
  have c: "(coerced rt r)(key := Finite 0) = coerced rt r"
    using z by (rule fun_upd_same_value)
  have l: "map_of r key = None \<Longrightarrow>
           (\<lambda>k. shown rt r k (ascii ''?''))(key := ascii ''?'') = (\<lambda>k. shown rt r k (ascii ''?''))"
    by (rule fun_upd_same_value) (rule shown_absent)
  show ?thesis
    using l
    by (simp add: c attr_keep_obj filter_products_one render_line_obj
        spec_in_bounds_five [symmetric] line_text_line_of [symmetric])
qed

text \<open>Scenario D of the specification: the record without \<open>watt\<close> is dropped for the
  bounds 10 to 50 and kept for the bounds 0 to 200, and then its line shows \<open>?W\<close>. A
  \<open>watt\<close> that is text and no number is compared as \<open>0.0\<close> as well.\<close>

theorem absent_or_non_numeric_attribute_witness:
  "ascii ''watt'' \<in> set attr_keys \<and> map_of no_watt (ascii ''watt'') = None \<and>
   attr_keep example_rt (default_bounds\<lparr>watt_lo := Finite 10, watt_hi := Finite 50\<rparr>)
     (JObj no_watt) = Inr False \<and>
   attr_keep example_rt default_bounds (JObj no_watt) = Inr True \<and>
   render_line example_rt (JObj no_watt) =
     Inr (seg_series @ ascii ''Track-100'' @ seg_model @ ascii ''TR-1'' @ seg_watt @ ascii ''?'' @
          seg_cct @ ascii ''3000'' @ seg_beam @ ascii ''24'' @ seg_lumen @ ascii ''2000'' @
          seg_price @ ascii ''500'' @ seg_end) \<and>
   filter_products example_rt [JObj no_watt] [] default_bounds 20 =
     Inr (header 1 20 @ [10] @
          seg_series @ ascii ''Track-100'' @ seg_model @ ascii ''TR-1'' @ seg_watt @ ascii ''?'' @
          seg_cct @ ascii ''3000'' @ seg_beam @ ascii ''24'' @ seg_lumen @ ascii ''2000'' @
          seg_price @ ascii ''500'' @ seg_end) \<and>
   map_of text_watt (ascii ''watt'') = Some (JStr (ascii ''?'')) \<and>
   non_numeric example_rt (JStr (ascii ''?'')) \<and>
   attr_keep example_rt (default_bounds\<lparr>watt_lo := Finite 10, watt_hi := Finite 50\<rparr>)
     (JObj text_watt) = Inr False"
proof -
  let ?b = "default_bounds\<lparr>watt_lo := Finite 10, watt_hi := Finite 50\<rparr>"
  have k: "ascii ''watt'' \<in> set attr_keys"
    by (simp add: attr_keys_def)
  have a: "map_of no_watt (ascii ''watt'') = None"
    by code_simp
  have t: "map_of text_watt (ascii ''watt'') = Some (JStr (ascii ''?''))"
    by code_simp
  have n: "non_numeric example_rt (JStr (ascii ''?''))"
    by code_simp
  have e1: "\<not> five_in_bounds ?b ((coerced example_rt no_watt)(ascii ''watt'' := Finite 0))"
    by code_simp
  have e2: "five_in_bounds default_bounds
              ((coerced example_rt no_watt)(ascii ''watt'' := Finite 0))"
    by code_simp
  have e3: "\<not> five_in_bounds ?b ((coerced example_rt text_watt)(ascii ''watt'' := Finite 0))"
    by code_simp
  have l: "line_of (shown example_rt no_watt (ascii ''series'') dflt_series)
             (shown example_rt no_watt (ascii ''model'') dflt_model)
             ((\<lambda>k. shown example_rt no_watt k (ascii ''?''))(ascii ''watt'' := ascii ''?'')) =
           seg_series @ ascii ''Track-100'' @ seg_model @ ascii ''TR-1'' @ seg_watt @ ascii ''?'' @
          seg_cct @ ascii ''3000'' @ seg_beam @ ascii ''24'' @ seg_lumen @ ascii ''2000'' @
          seg_price @ ascii ''500'' @ seg_end"
    by code_simp
  have a': "map_of no_watt (ascii ''watt'') = None \<or>
            (\<exists>v. map_of no_watt (ascii ''watt'') = Some v \<and> non_numeric example_rt v)"
    using a by simp
  have t': "map_of text_watt (ascii ''watt'') = None \<or>
            (\<exists>v. map_of text_watt (ascii ''watt'') = Some v \<and> non_numeric example_rt v)"
    using t n by simp
  from absent_or_non_numeric_attribute [OF k a', of ?b 20]
    absent_or_non_numeric_attribute [OF k a', of default_bounds 20]
    absent_or_non_numeric_attribute [OF k t', of ?b 20]
  show ?thesis
    using k a t n by (simp add: e1 e2 e3 l join_Cons)
qed



text \<open>
  C5. On every list of objects (the records that survive the keyword stage) the
  attribute stage keeps exactly the records whose five coerced values all lie within
  their inclusive bounds, in the order of the input: the five \<open>continue\<close> tests amount
  to one conjunction, and a record that fails any of them is left out.
\<close>

theorem attribute_stage_keeps_iff_all_in_bounds:
  "attr_loop rt b [] (map JObj rs) =
     Inr (map JObj
       (filter (\<lambda>r. in_range (watt_lo b) (watt_hi b) (coerced rt r (ascii ''watt'')) \<and>
                    in_range (cct_lo b) (cct_hi b) (coerced rt r (ascii ''cct'')) \<and>
                    in_range (beam_lo b) (beam_hi b) (coerced rt r (ascii ''beam'')) \<and>
                    in_range (lumen_lo b) (lumen_hi b) (coerced rt r (ascii ''lumen'')) \<and>
                    in_range (price_lo b) (price_hi b) (coerced rt r (ascii ''price'')))
          rs))"
  using attr_loop_objs [of rt b "[]" rs]
  by (simp only: spec_in_bounds_def [abs_def] append_Nil)

text \<open>Scenario D of the specification: with \<open>watt\<close> between 10 and 50, the record with
  30 watt stays and the record with no \<open>watt\<close> (compared as \<open>0.0\<close>) is left out, though its
  other four values are within their bounds.\<close>

theorem attribute_stage_keeps_iff_all_in_bounds_witness:
  "attr_loop example_rt (default_bounds\<lparr>watt_lo := Finite 10, watt_hi := Finite 50\<rparr>) []
     (map JObj [track_100, [(ascii ''cct'', JInt 3000)]]) = Inr [JObj track_100]"
proof -
  have "filter (\<lambda>r. in_range (Finite 10) (Finite 50) (coerced example_rt r (ascii ''watt'')) \<and>
                    in_range (Finite 2700) (Finite 6500) (coerced example_rt r (ascii ''cct'')) \<and>
                    in_range (Finite 0) (Finite 120) (coerced example_rt r (ascii ''beam'')) \<and>
                    in_range (Finite 0) (Finite 15000) (coerced example_rt r (ascii ''lumen'')) \<and>
                    in_range (Finite 0) (Finite 200000) (coerced example_rt r (ascii ''price'')))
          [track_100, [(ascii ''cct'', JInt 3000)]] = [track_100]"
    by code_simp
  with attribute_stage_keeps_iff_all_in_bounds
    [of example_rt "default_bounds\<lparr>watt_lo := Finite 10, watt_hi := Finite 50\<rparr>"
        "[track_100, [(ascii ''cct'', JInt 3000)]]"]
  show ?thesis
    by (simp add: default_bounds_def)
qed

text \<open>
  C6. When the file exists and parses as the empty array, \<open>load_products\<close> returns the
  empty list and the success message with the count 0. When it parses as a value that
  is no array, \<open>load_products\<close> returns the empty list and the message of line 24 (the
  format of the file is wrong: the outermost value must be an array).
\<close>

theorem load_products_empty_array_and_non_array:
  "load_products data_file (Some (Parsed (JArr []))) =
     ([], loaded_pre @ ascii ''0'' @ loaded_suf) \<and>
   (\<not> is_arr data \<longrightarrow> load_products data_file (Some (Parsed data)) = ([], msg_format))"
proof
  have "str_int 0 = ascii ''0''"
    by (simp add: str_int_def digits.simps ascii_def)
  then show "load_products data_file (Some (Parsed (JArr []))) =
     ([], loaded_pre @ ascii ''0'' @ loaded_suf)"
    by simp
next
  show "\<not> is_arr data \<longrightarrow> load_products data_file (Some (Parsed data)) = ([], msg_format)"
    by (cases data) simp_all
qed

text \<open>A file whose top-level value is one object.\<close>

theorem load_products_empty_array_and_non_array_witness:
  "\<not> is_arr (JObj [(ascii ''series'', JStr (ascii ''Track-100''))]) \<and>
   load_products (ascii ''merged_products_with_series.json'')
     (Some (Parsed (JObj [(ascii ''series'', JStr (ascii ''Track-100''))]))) = ([], msg_format) \<and>
   load_products (ascii ''merged_products_with_series.json'') (Some (Parsed (JArr []))) =
     ([], loaded_pre @ ascii ''0'' @ loaded_suf)"
  using load_products_empty_array_and_non_array
    [of "ascii ''merged_products_with_series.json''"
        "JObj [(ascii ''series'', JStr (ascii ''Track-100''))]"]
  by simp

text \<open>
  C7. For every list of objects and every call: the displayed records, the slice
  \<open>result[:int(topk)]\<close>, are a prefix of the full filtered subsequence; the filtered
  subsequence is a subsequence of the input, in the order of the input; and the report
  is the header followed by the lines of the displayed records in that same order.
\<close>

theorem displayed_is_prefix_of_filtered:
  "prefix (py_slice_to topk (survivors rt kw b rs)) (survivors rt kw b rs) \<and>
   subseq (survivors rt kw b rs) rs \<and>
   (rs \<noteq> [] \<and> survivors rt kw b rs \<noteq> [] \<longrightarrow>
      filter_products rt (map JObj rs) kw b topk =
        Inr (join [10] (header (int (length (survivors rt kw b rs))) topk #
               map (line_text rt) (py_slice_to topk (survivors rt kw b rs)))))"
proof (intro conjI impI)
  show "prefix (py_slice_to topk (survivors rt kw b rs)) (survivors rt kw b rs)"
    by (rule py_slice_to_prefix)
  show "subseq (survivors rt kw b rs) rs"
    by (rule survivors_subseq)
  assume "rs \<noteq> [] \<and> survivors rt kw b rs \<noteq> []"
  then show "filter_products rt (map JObj rs) kw b topk =
        Inr (join [10] (header (int (length (survivors rt kw b rs))) topk #
               map (line_text rt) (py_slice_to topk (survivors rt kw b rs))))"
    by (auto simp add: filter_products_objs survivors_def)
qed

text \<open>Three records of which the first and the third survive, with the cap 1: the
  first is displayed.\<close>

theorem displayed_is_prefix_of_filtered_witness:
  "survivors example_rt [] default_bounds [track_100, [], track_100] = [track_100, track_100] \<and>
   py_slice_to 1 [track_100, track_100] = [track_100] \<and>
   filter_products example_rt (map JObj [track_100, [], track_100]) [] default_bounds 1 =
     Inr (join [10] [header 2 1, line_text example_rt track_100])"
proof -
  have s: "survivors example_rt [] default_bounds [track_100, [], track_100] =
           [track_100, track_100]"
    by code_simp
  have d: "py_slice_to 1 [track_100, track_100] = [track_100]"
    by (simp add: py_slice_to_def)
  from displayed_is_prefix_of_filtered
    [of 1 example_rt "[]" default_bounds "[track_100, [], track_100]"]
  show ?thesis
    by (simp add: s d)
qed

text \<open>
  C10, as the source has it. For every record that is an object: each attribute is
  shown as \<open>?\<close> when its key is absent and as the text of its value when the key is
  present (so also as \<open>?\<close> when the value is the text \<open>?\<close>). When the key of an
  attribute is present with the value null, the attribute stage compares \<open>0.0\<close> for it
  (\<open>float(None)\<close> raises and \<open>num\<close> swallows it), so that \<open>filter_products\<close> keeps or drops
  the record accordingly, and the line of the record in the report has the text
  \<open>None\<close> for it, which is not the placeholder.
\<close>

theorem null_attribute_is_zero_and_None:
  "render_line rt (JObj r) =
     Inr (line_of (shown rt r (ascii ''series'') dflt_series)
            (shown rt r (ascii ''model'') dflt_model)
            (\<lambda>k. case map_of r k of None \<Rightarrow> ascii ''?'' | Some v \<Rightarrow> py_str rt v)) \<and>
   (key \<in> set attr_keys \<and> map_of r key = Some JNull \<longrightarrow>
      attr_keep rt b (JObj r) = Inr (five_in_bounds b ((coerced rt r)(key := Finite 0))) \<and>
      render_line rt (JObj r) =
        Inr (line_of (shown rt r (ascii ''series'') dflt_series)
               (shown rt r (ascii ''model'') dflt_model)
               ((\<lambda>k. shown rt r k (ascii ''?''))(key := ascii ''None''))) \<and>
      filter_products rt [JObj r] [] b topk =
        Inr (if five_in_bounds b ((coerced rt r)(key := Finite 0))
             then join [10]
                    (header 1 topk #
                     (if 0 < topk
                      then [line_of (shown rt r (ascii ''series'') dflt_series)
                              (shown rt r (ascii ''model'') dflt_model)
                              ((\<lambda>k. shown rt r k (ascii ''?''))(key := ascii ''None''))]
                      else []))
             else msg_no_attr) \<and>
      ascii ''None'' \<noteq> ascii ''?'')"
proof (intro conjI impI)
  have "(\<lambda>k. shown rt r k (ascii ''?'')) =
        (\<lambda>k. case map_of r k of None \<Rightarrow> ascii ''?'' | Some v \<Rightarrow> py_str rt v)"
    by (rule ext) (simp add: shown_def dict_get_def split: option.split)
  then show "render_line rt (JObj r) =
     Inr (line_of (shown rt r (ascii ''series'') dflt_series)
            (shown rt r (ascii ''model'') dflt_model)
            (\<lambda>k. case map_of r k of None \<Rightarrow> ascii ''?'' | Some v \<Rightarrow> py_str rt v))"
    using line_text_line_of [of rt r] by (simp add: render_line_obj)
next
  assume h: "key \<in> set attr_keys \<and> map_of r key = Some JNull"
  have z: "coerced rt r key = Finite 0"
    using h coerced_non_numeric [of r key JNull rt] by simp
  have c: "(coerced rt r)(key := Finite 0) = coerced rt r"
    using z by (rule fun_upd_same_value)
  have "shown rt r key (ascii ''?'') = ascii ''None''"
    using h shown_present [of r key JNull rt] by simp
  then have l: "(\<lambda>k. shown rt r k (ascii ''?''))(key := ascii ''None'') =
                (\<lambda>k. shown rt r k (ascii ''?''))"
    by (rule fun_upd_same_value)
  show "attr_keep rt b (JObj r) = Inr (five_in_bounds b ((coerced rt r)(key := Finite 0)))"
    by (simp add: c attr_keep_obj spec_in_bounds_five)
  show "render_line rt (JObj r) =
        Inr (line_of (shown rt r (ascii ''series'') dflt_series)
               (shown rt r (ascii ''model'') dflt_model)
               ((\<lambda>k. shown rt r k (ascii ''?''))(key := ascii ''None'')))"
    by (simp add: l render_line_obj line_text_line_of)
  show "filter_products rt [JObj r] [] b topk =
        Inr (if five_in_bounds b ((coerced rt r)(key := Finite 0))
             then join [10]
                    (header 1 topk #
                     (if 0 < topk
                      then [line_of (shown rt r (ascii ''series'') dflt_series)
                              (shown rt r (ascii ''model'') dflt_model)
                              ((\<lambda>k. shown rt r k (ascii ''?''))(key := ascii ''None''))]
                      else []))
             else msg_no_attr)"
    by (simp add: c l filter_products_one spec_in_bounds_five line_text_line_of)
  show "ascii ''None'' \<noteq> ascii ''?''"
    by (simp add: ascii_def)
qed


text \<open>A record whose \<open>watt\<close> is null: dropped for the bounds 10 to 50, kept for the
  bounds 0 to 200, and then shown with \<open>NoneW\<close>.\<close>

theorem null_attribute_is_zero_and_None_witness:
  "ascii ''watt'' \<in> set attr_keys \<and> map_of null_watt (ascii ''watt'') = Some JNull \<and>
   attr_keep example_rt (default_bounds\<lparr>watt_lo := Finite 10, watt_hi := Finite 50\<rparr>)
     (JObj null_watt) = Inr False \<and>
   attr_keep example_rt default_bounds (JObj null_watt) = Inr True \<and>
   render_line example_rt (JObj null_watt) =
     Inr (seg_series @ ascii ''Track-100'' @ seg_model @ ascii ''TR-1'' @ seg_watt @ ascii ''None'' @
          seg_cct @ ascii ''3000'' @ seg_beam @ ascii ''24'' @ seg_lumen @ ascii ''2000'' @
          seg_price @ ascii ''500'' @ seg_end) \<and>
   filter_products example_rt [JObj null_watt] [] default_bounds 20 =
     Inr (header 1 20 @ [10] @
          seg_series @ ascii ''Track-100'' @ seg_model @ ascii ''TR-1'' @ seg_watt @ ascii ''None'' @
          seg_cct @ ascii ''3000'' @ seg_beam @ ascii ''24'' @ seg_lumen @ ascii ''2000'' @
          seg_price @ ascii ''500'' @ seg_end)"
proof -
  let ?b = "default_bounds\<lparr>watt_lo := Finite 10, watt_hi := Finite 50\<rparr>"
  have k: "ascii ''watt'' \<in> set attr_keys"
    by (simp add: attr_keys_def)
  have a: "map_of null_watt (ascii ''watt'') = Some JNull"
    by code_simp
  have e1: "\<not> five_in_bounds ?b ((coerced example_rt null_watt)(ascii ''watt'' := Finite 0))"
    by code_simp
  have e2: "five_in_bounds default_bounds
              ((coerced example_rt null_watt)(ascii ''watt'' := Finite 0))"
    by code_simp
  have l: "line_of (shown example_rt null_watt (ascii ''series'') dflt_series)
             (shown example_rt null_watt (ascii ''model'') dflt_model)
             ((\<lambda>k. shown example_rt null_watt k (ascii ''?''))(ascii ''watt'' := ascii ''None'')) =
           seg_series @ ascii ''Track-100'' @ seg_model @ ascii ''TR-1'' @ seg_watt @ ascii ''None'' @
          seg_cct @ ascii ''3000'' @ seg_beam @ ascii ''24'' @ seg_lumen @ ascii ''2000'' @
          seg_price @ ascii ''500'' @ seg_end"
    by code_simp
  from null_attribute_is_zero_and_None [of example_rt null_watt "ascii ''watt''" ?b 20]
    null_attribute_is_zero_and_None [of example_rt null_watt "ascii ''watt''" default_bounds 20]
  show ?thesis
    using k a by (simp add: e1 e2 l join_Cons)
qed

text \<open>C10 as stated fails in its last part: the record whose \<open>watt\<close> is present and is
  the text \<open>?\<close> has \<open>?W\<close> in its line of the report, as the record without \<open>watt\<close>
  has.\<close>

theorem placeholder_for_present_text_counterexample:
  "map_of text_watt (ascii ''watt'') = Some (JStr (ascii ''?'')) \<and>
   render_line example_rt (JObj text_watt) =
     Inr (seg_series @ ascii ''Track-100'' @ seg_model @ ascii ''TR-1'' @ seg_watt @ ascii ''?'' @
          seg_cct @ ascii ''3000'' @ seg_beam @ ascii ''24'' @ seg_lumen @ ascii ''2000'' @
          seg_price @ ascii ''500'' @ seg_end) \<and>
   filter_products example_rt [JObj text_watt] [] default_bounds 20 =
     Inr (header 1 20 @ [10] @
          seg_series @ ascii ''Track-100'' @ seg_model @ ascii ''TR-1'' @ seg_watt @ ascii ''?'' @
          seg_cct @ ascii ''3000'' @ seg_beam @ ascii ''24'' @ seg_lumen @ ascii ''2000'' @
          seg_price @ ascii ''500'' @ seg_end)"
  by code_simp

text \<open>
  C8. For every store in which the list \<open>products\<close> exists, and every call:
  \<open>filter_products\<close> returns, and in the store it leaves the list \<open>products\<close> has the same
  elements, every object (so every record) is the same, and so is every other list
  that existed before the call. All that the call appends to are lists it has made
  itself.
\<close>

theorem filter_products_leaves_records_unchanged:
  assumes "products < lim h"
  shows "\<exists>out h'. filter_products_h rt products kw b topk h = Some (out, h') \<and>
           rlists h' products = rlists h products \<and> objs h' = objs h \<and>
           (\<forall>a<lim h. rlists h' a = rlists h a \<and> slists h' a = slists h a)"
proof -
  from filter_products_h_run [OF assms, of rt kw b topk]
  obtain h' where
    run: "filter_products_h rt products kw b topk h =
            Some (filter_products rt (map (objs h) (rlists h products)) kw b topk, h')"
    and u: "unchanged h h'"
    by blast
  from u assms have "rlists h' products = rlists h products" and "objs h' = objs h"
    and "\<forall>a<lim h. rlists h' a = rlists h a \<and> slists h' a = slists h a"
    by (simp_all add: unchanged_def)
  with run show ?thesis by blast
qed

theorem filter_products_leaves_records_unchanged_witness:
  "0 < lim example_heap \<and>
   (\<exists>out h'. filter_products_h example_rt 0 (ascii ''Track'') default_bounds 20 example_heap =
        Some (out, h') \<and>
      rlists h' 0 = rlists example_heap 0 \<and> objs h' = objs example_heap \<and>
      (\<forall>a<lim example_heap. rlists h' a = rlists example_heap a \<and>
                             slists h' a = slists example_heap a))"
proof -
  have l: "0 < lim example_heap"
    by (simp add: example_heap_def)
  from filter_products_leaves_records_unchanged
    [OF l, of example_rt "ascii ''Track''" default_bounds 20] l
  show ?thesis by blast
qed

text \<open>
  C9. For every store in which the list \<open>products\<close> exists: a call of \<open>filter_products\<close>
  returns, and a second call with the same arguments, made in the store that the first
  call has left, returns as well, with the same result (the same text, or the same
  exception).
\<close>

theorem filter_products_twice_same_output:
  assumes "products < lim h"
  shows "\<exists>out h1 h2. filter_products_h rt products kw b topk h = Some (out, h1) \<and>
           filter_products_h rt products kw b topk h1 = Some (out, h2)"
proof -
  from filter_products_h_run [OF assms, of rt kw b topk]
  obtain h1 where
    run1: "filter_products_h rt products kw b topk h =
            Some (filter_products rt (map (objs h) (rlists h products)) kw b topk, h1)"
    and u: "unchanged h h1"
    by blast
  from u assms have lt: "products < lim h1"
    and same: "rlists h1 products = rlists h products" "objs h1 = objs h"
    by (simp_all add: unchanged_def)
  from filter_products_h_run [OF lt, of rt kw b topk]
  obtain h2 where
    "filter_products_h rt products kw b topk h1 =
       Some (filter_products rt (map (objs h1) (rlists h1 products)) kw b topk, h2)"
    by blast
  with run1 same show ?thesis by simp
qed

theorem filter_products_twice_same_output_witness:
  "0 < lim example_heap \<and>
   (\<exists>out h1 h2.
      filter_products_h example_rt 0 (ascii ''Track'') default_bounds 20 example_heap =
        Some (out, h1) \<and>
      filter_products_h example_rt 0 (ascii ''Track'') default_bounds 20 h1 = Some (out, h2))"
proof -
  have l: "0 < lim example_heap"
    by (simp add: example_heap_def)
  from filter_products_twice_same_output
    [OF l, of example_rt "ascii ''Track''" default_bounds 20] l
  show ?thesis by blast
qed

end
